theory Spec2Isabelle
  imports Complex_Main
begin

section \<open>Floating-point values and Python errors\<close>

text \<open>
  The arrays of \<^verbatim>\<open>scoring.py\<close> hold floats, and the code relies on NaN as its "no data"
  signal. A value is modelled as a real number or NaN; rounding, overflow and the
  infinities are outside the model. The operations below are the IEEE ones on that
  domain: every arithmetic operation with a NaN operand gives NaN, and every ordered
  comparison with a NaN operand is false.
\<close>

datatype fl = Fin real | NaN

fun isnan :: "fl \<Rightarrow> bool" where
  "isnan NaN = True"
| "isnan (Fin _) = False"

fun fsub :: "fl \<Rightarrow> fl \<Rightarrow> fl" where
  "fsub (Fin a) (Fin b) = Fin (a - b)"
| "fsub _ _ = NaN"

fun fadd :: "fl \<Rightarrow> fl \<Rightarrow> fl" where
  "fadd (Fin a) (Fin b) = Fin (a + b)"
| "fadd _ _ = NaN"

fun fsquare :: "fl \<Rightarrow> fl" where
  "fsquare (Fin a) = Fin (a ^ 2)"
| "fsquare NaN = NaN"

fun fsqrt :: "fl \<Rightarrow> fl" where
  "fsqrt (Fin a) = (if a < 0 then NaN else Fin (sqrt a))"
| "fsqrt NaN = NaN"

text \<open>\<^verbatim>\<open>a >= b\<close> and \<^verbatim>\<open>a < b\<close> on floats.\<close>

fun fge :: "fl \<Rightarrow> fl \<Rightarrow> bool" where
  "fge (Fin a) (Fin b) = (b \<le> a)"
| "fge _ _ = False"

fun flt :: "fl \<Rightarrow> fl \<Rightarrow> bool" where
  "flt (Fin a) (Fin b) = (a < b)"
| "flt _ _ = False"

text \<open>
  The exceptions the modelled code can raise. A \<^verbatim>\<open>ValueError\<close> carries the place that
  raised it: the image-count guard of \<^verbatim>\<open>get_scores\<close>, the row-count guard of
  \<^verbatim>\<open>compute_rmse\<close>, \<^verbatim>\<open>np.stack\<close> on an empty list or on arrays of different shapes, and
  a \<^verbatim>\<open>reshape\<close> to a size that does not divide the number of elements. Whatever the
  external evaluator raises is an \<open>EvaluatorError\<close>.
\<close>

datatype value_error =
  ImageCountMismatch nat nat
| NumElementsMismatch
| StackNeedsOneArray
| StackShapeMismatch
| CannotReshape

datatype error =
  ValueError value_error
| KeyError string
| IndexError
| TypeError
| RuntimeError
| EvaluatorError

section \<open>The RMSE scorer\<close>

text \<open>
  \<^verbatim>\<open>np.sum\<close> of a one-dimensional float array, and \<^verbatim>\<open>np.nanmean\<close>: NaN entries are
  replaced by zero, the rest is summed and divided by the number of entries that are
  not NaN; with no such entry the division is \<^verbatim>\<open>0 / 0\<close>, which is NaN (numpy warns and
  does not raise).
\<close>

definition np_sum :: "fl list \<Rightarrow> fl" where
  "np_sum xs = foldl fadd (Fin 0) xs"

fun divide_by_count :: "fl \<Rightarrow> nat \<Rightarrow> fl" where
  "divide_by_count (Fin t) n = (if n = 0 then NaN else Fin (t / real n))"
| "divide_by_count NaN n = NaN"

definition np_nanmean :: "fl list \<Rightarrow> fl" where
  "np_nanmean xs =
     (let arr = map (\<lambda>x. if isnan x then Fin 0 else x) xs;
          cnt = length (filter (\<lambda>x. \<not> isnan x) xs);
          tot = np_sum arr
      in divide_by_count tot cnt)"

text \<open>Boolean-mask indexing \<^verbatim>\<open>a[mask]\<close> of a one-dimensional array.\<close>

definition mask_select :: "bool list \<Rightarrow> 'a list \<Rightarrow> 'a list" where
  "mask_select m xs = map snd (filter fst (zip m xs))"

text \<open>
  \<^verbatim>\<open>compute_rmse(pred, ground_truth, pcutoff)\<close>. The prediction is an array of shape
  \<open>(n, 3)\<close>, a list of rows \<open>(x, y, score)\<close>; the ground truth is an array of shape
  \<open>(m, 2)\<close>, a list of rows \<open>(x, y)\<close>.
\<close>

type_synonym pred_row = "fl \<times> fl \<times> fl"
type_synonym gt_row = "fl \<times> fl"

definition compute_rmse :: "pred_row list \<Rightarrow> gt_row list \<Rightarrow> fl \<Rightarrow> error + (fl \<times> fl)" where
  "compute_rmse pred ground_truth pcutoff =
     (if length pred \<noteq> length ground_truth then Inl (ValueError NumElementsMismatch)
      else
        let mask = map (\<lambda>(x, y, s). fge s pcutoff) pred;
            square_distances =
              map2 (\<lambda>(x, y, s) (gx, gy). (fsquare (fsub x gx), fsquare (fsub y gy)))
                pred ground_truth;
            mean_square_errors = map (\<lambda>(a, b). fadd a b) square_distances;
            rmse = np_nanmean (map fsqrt mean_square_errors);
            rmse_p = np_nanmean (map fsqrt (mask_select mask mean_square_errors))
        in Inr (rmse, rmse_p))"

text \<open>
  The words of the specification for the RMSE scorer: the Euclidean distance of a
  predicted row and a ground-truth row, NaN as soon as one coordinate is NaN, and the
  mean that leaves NaN entries out and is NaN when nothing is left.
\<close>

fun euclidean_distance :: "pred_row \<Rightarrow> gt_row \<Rightarrow> fl" where
  "euclidean_distance (Fin x, Fin y, s) (Fin gx, Fin gy) =
     Fin (sqrt ((x - gx) ^ 2 + (y - gy) ^ 2))"
| "euclidean_distance _ _ = NaN"

definition nan_excluding_mean :: "fl list \<Rightarrow> fl" where
  "nan_excluding_mean ds =
     (let vs = concat (map (\<lambda>d. case d of Fin v \<Rightarrow> [v] | NaN \<Rightarrow> []) ds)
      in if vs = [] then NaN else Fin (sum_list vs / real (length vs)))"

definition passes_cutoff :: "fl \<Rightarrow> pred_row \<times> gt_row \<Rightarrow> bool" where
  "passes_cutoff pcutoff = (\<lambda>((x, y, s), g). fge s pcutoff)"

definition distances :: "(pred_row \<times> gt_row) list \<Rightarrow> fl list" where
  "distances zs = map (\<lambda>(p, g). euclidean_distance p g) zs"

definition known_score :: "pred_row \<times> gt_row \<Rightarrow> bool" where
  "known_score = (\<lambda>((x, y, s), g). \<not> isnan s)"

section \<open>Keypoint arrays and the score dictionary\<close>

text \<open>
  A keypoint array of one image has shape \<open>(individuals, keypoints, columns)\<close>; the
  stack of the arrays of several images has one more leading axis. An array is its
  shape and its entries by index; only entries inside the shape are ever read.
\<close>

record ndarray3 =
  n_individuals :: nat
  n_keypoints :: nat
  n_columns :: nat
  item :: "nat \<Rightarrow> nat \<Rightarrow> nat \<Rightarrow> fl"

record ndarray4 =
  n_images :: nat
  shape3 :: "nat \<times> nat \<times> nat"
  item4 :: "nat \<Rightarrow> nat \<Rightarrow> nat \<Rightarrow> nat \<Rightarrow> fl"

definition shape_of :: "ndarray3 \<Rightarrow> nat \<times> nat \<times> nat" where
  "shape_of a = (n_individuals a, n_keypoints a, n_columns a)"

text \<open>The array \<^verbatim>\<open>np.array(rows)\<close> of a nested list: individuals, keypoints, columns.\<close>

definition np_array :: "fl list list list \<Rightarrow> ndarray3" where
  "np_array xs =
     \<lparr>n_individuals = length xs,
      n_keypoints = (case xs of [] \<Rightarrow> 0 | ks # _ \<Rightarrow> length ks),
      n_columns = (case xs of [] \<Rightarrow> 0 | ks # _ \<Rightarrow> (case ks of [] \<Rightarrow> 0 | cs # _ \<Rightarrow> length cs)),
      item = (\<lambda>i k c. xs ! i ! k ! c)\<rparr>"

text \<open>
  A Python \<^verbatim>\<open>dict\<close> keeps its keys in insertion order: a list of key-value pairs with
  distinct keys. \<^verbatim>\<open>len(d)\<close> is the number of pairs, \<^verbatim>\<open>list(d)\<close> the keys in order,
  and \<^verbatim>\<open>d[k]\<close> raises \<^verbatim>\<open>KeyError\<close> on a missing key.
\<close>

type_synonym 'v dict = "(string \<times> 'v) list"

definition getitem :: "'v dict \<Rightarrow> string \<Rightarrow> error + 'v" where
  "getitem d k = (case map_of d k of None \<Rightarrow> Inl (KeyError k) | Some v \<Rightarrow> Inr v)"

text \<open>Sequencing of computations that may raise.\<close>

definition bind :: "error + 'a \<Rightarrow> ('a \<Rightarrow> error + 'b) \<Rightarrow> error + 'b" where
  "bind m f = (case m of Inl e \<Rightarrow> Inl e | Inr v \<Rightarrow> f v)"

fun collect :: "('a \<Rightarrow> error + 'b) \<Rightarrow> 'a list \<Rightarrow> error + 'b list" where
  "collect f [] = Inr []"
| "collect f (x # xs) = bind (f x) (\<lambda>y. bind (collect f xs) (\<lambda>ys. Inr (y # ys)))"

text \<open>
  \<^verbatim>\<open>np.stack\<close> raises \<^verbatim>\<open>ValueError\<close> on an empty list and on arrays whose shapes are
  not all the same.
\<close>

definition np_stack :: "ndarray3 list \<Rightarrow> error + ndarray4" where
  "np_stack arrays =
     (case arrays of
        [] \<Rightarrow> Inl (ValueError StackNeedsOneArray)
      | a # rest \<Rightarrow>
          if list_ex (\<lambda>b. shape_of b \<noteq> shape_of a) rest
          then Inl (ValueError StackShapeMismatch)
          else Inr \<lparr>n_images = length arrays, shape3 = shape_of a,
                    item4 = (\<lambda>n. item (arrays ! n))\<rparr>)"

definition build_keypoint_array :: "ndarray3 dict \<Rightarrow> string list \<Rightarrow> error + ndarray4" where
  "build_keypoint_array keypoints keys =
     bind (collect (getitem keypoints) keys) (\<lambda>image_keypoints. np_stack image_keypoints)"

text \<open>
  The slice \<^verbatim>\<open>[..., :m]\<close> of the last axis, and the entries of an array in row-major
  order, which is the order \<^verbatim>\<open>reshape\<close> regroups.
\<close>

definition slice_last :: "nat \<Rightarrow> ndarray4 \<Rightarrow> ndarray4" where
  "slice_last m a =
     (case shape3 a of (i, k, c) \<Rightarrow> a\<lparr>shape3 := (i, k, min c m)\<rparr>)"

definition ravel :: "ndarray4 \<Rightarrow> fl list" where
  "ravel a =
     (case shape3 a of (ni, nk, nc) \<Rightarrow>
        concat (map (\<lambda>n. concat (map (\<lambda>i. concat (map (\<lambda>k. map (\<lambda>c. item4 a n i k c)
          [0..<nc]) [0..<nk])) [0..<ni])) [0..<n_images a]))"

fun rows3 :: "fl list \<Rightarrow> pred_row list" where
  "rows3 (a # b # c # xs) = (a, b, c) # rows3 xs"
| "rows3 _ = []"

fun rows2 :: "fl list \<Rightarrow> gt_row list" where
  "rows2 (a # b # xs) = (a, b) # rows2 xs"
| "rows2 _ = []"

definition reshape_neg1_3 :: "fl list \<Rightarrow> error + pred_row list" where
  "reshape_neg1_3 xs =
     (if length xs mod 3 = 0 then Inr (rows3 xs) else Inl (ValueError CannotReshape))"

definition reshape_neg1_2 :: "fl list \<Rightarrow> error + gt_row list" where
  "reshape_neg1_2 xs =
     (if length xs mod 2 = 0 then Inr (rows2 xs) else Inl (ValueError CannotReshape))"

section \<open>The OKS scorer\<close>

text \<open>
  Modelled from the spec: the class \<^verbatim>\<open>Assembly\<close> of \<^verbatim>\<open>inferenceutils\<close>, its constructor
  \<^verbatim>\<open>Assembly.from_array\<close> and its length are not among the sources. By the
  specification an assembly is one individual's joint set, built by dropping the joints
  whose coordinates are NaN; its length is the number of joints it retains. An assembly
  is the list of the retained joints, each with its index and its row.
\<close>

type_synonym assembly = "(nat \<times> fl list) list"

definition finite_joint :: "fl list \<Rightarrow> bool" where
  "finite_joint row = list_all (\<lambda>v. \<not> isnan v) row"

definition Assembly_from_array :: "fl list list \<Rightarrow> assembly" where
  "Assembly_from_array idv_bodyparts =
     filter (\<lambda>(j, row). finite_joint row) (zip [0..<length idv_bodyparts] idv_bodyparts)"

definition len_assembly :: "assembly \<Rightarrow> nat" where
  "len_assembly a = length a"

text \<open>
  Iterating a keypoint array yields the individuals, each a two-dimensional array of
  one row per keypoint.
\<close>

definition individuals :: "ndarray3 \<Rightarrow> fl list list list" where
  "individuals a =
     map (\<lambda>i. map (\<lambda>k. map (\<lambda>c. item a i k c) [0..<n_columns a]) [0..<n_keypoints a])
       [0..<n_individuals a]"

definition image_assemblies :: "ndarray3 \<Rightarrow> assembly list" where
  "image_assemblies keypoints =
     filter (\<lambda>assembly. len_assembly assembly \<noteq> 0)
       (map Assembly_from_array (individuals keypoints))"

definition build_assemblies :: "ndarray3 dict \<Rightarrow> assembly list dict" where
  "build_assemblies poses =
     map (\<lambda>(image_path, keypoints). (image_path, image_assemblies keypoints)) poses"

text \<open>
  The masking of one prediction array in \<^verbatim>\<open>compute_oks\<close>: the copy of the slice
  \<^verbatim>\<open>[:, :, :2]\<close>, with both coordinates set to NaN where the score is below the cutoff.
  Reading column 2 of an array with fewer than three columns raises \<^verbatim>\<open>IndexError\<close>.
\<close>

definition xy_slice :: "ndarray3 \<Rightarrow> ndarray3" where
  "xy_slice a = a\<lparr>n_columns := min (n_columns a) 2\<rparr>"

definition score_below :: "ndarray3 \<Rightarrow> fl \<Rightarrow> error + (nat \<Rightarrow> nat \<Rightarrow> bool)" where
  "score_below keypoints_with_scores pcutoff =
     (if n_columns keypoints_with_scores < 3 then Inl IndexError
      else Inr (\<lambda>i k. flt (item keypoints_with_scores i k 2) pcutoff))"

definition set_nan :: "(nat \<Rightarrow> nat \<Rightarrow> bool) \<Rightarrow> ndarray3 \<Rightarrow> ndarray3" where
  "set_nan m keypoints =
     keypoints\<lparr>item := (\<lambda>i k c. if m i k then NaN else item keypoints i k c)\<rparr>"

definition mask_keypoints :: "fl option \<Rightarrow> ndarray3 \<Rightarrow> error + ndarray3" where
  "mask_keypoints pcutoff keypoints_with_scores =
     (let keypoints = xy_slice keypoints_with_scores
      in case pcutoff of
           None \<Rightarrow> Inr keypoints
         | Some p \<Rightarrow>
             bind (score_below keypoints_with_scores p) (\<lambda>m. Inr (set_nan m keypoints)))"

definition mask_predictions :: "fl option \<Rightarrow> ndarray3 dict \<Rightarrow> error + ndarray3 dict" where
  "mask_predictions pcutoff pred =
     collect (\<lambda>(image_path, keypoints_with_scores).
       bind (mask_keypoints pcutoff keypoints_with_scores)
         (\<lambda>keypoints. Inr (image_path, keypoints))) pred"

text \<open>
  \<^verbatim>\<open>evaluate_assembly\<close> is the external OKS evaluator: it is a parameter, and returns
  the pair of \<^verbatim>\<open>mAP\<close> and \<^verbatim>\<open>mAR\<close>, or nothing when it raises.
\<close>

type_synonym 'k evaluator =
  "assembly list dict \<Rightarrow> assembly list dict \<Rightarrow> real \<Rightarrow> real \<Rightarrow> 'k option \<Rightarrow> (fl \<times> fl) option"

definition call_evaluator :: "(fl \<times> fl) option \<Rightarrow> error + (fl \<times> fl)" where
  "call_evaluator r = (case r of None \<Rightarrow> Inl EvaluatorError | Some v \<Rightarrow> Inr v)"

text \<open>An evaluator to run the functions on concrete inputs: it always reports 1 and 1.\<close>

definition constant_evaluator :: "unit evaluator" where
  "constant_evaluator p g oks_sigma margin symmetric_kpts = Some (Fin 1, Fin 1)"

definition compute_oks ::
  "'k evaluator \<Rightarrow> ndarray3 dict \<Rightarrow> ndarray3 dict \<Rightarrow> real \<Rightarrow> real \<Rightarrow> 'k option \<Rightarrow> fl option
    \<Rightarrow> error + (fl \<times> fl)" where
  "compute_oks evaluate_assembly pred ground_truth oks_sigma margin symmetric_kpts pcutoff =
     bind (mask_predictions pcutoff pred) (\<lambda>masked_pred.
       let assemblies_pred = build_assemblies masked_pred;
           assemblies_gt = build_assemblies ground_truth
       in call_evaluator
            (evaluate_assembly assemblies_pred assemblies_gt oks_sigma margin symmetric_kpts))"

text \<open>
  The same function with the arrays as objects of a store, to follow what the call
  reads, allocates and writes. A dictionary holds references; \<^verbatim>\<open>.copy()\<close> allocates a
  new array, and the masking assignment writes to that new array only.
\<close>

record heap =
  cells :: "nat \<Rightarrow> ndarray3"
  next_free :: nat

definition new_array :: "heap \<Rightarrow> ndarray3 \<Rightarrow> heap \<times> nat" where
  "new_array h a =
     (h\<lparr>cells := (cells h)(next_free h := a), next_free := Suc (next_free h)\<rparr>, next_free h)"

definition mask_keypoints_h :: "fl option \<Rightarrow> heap \<Rightarrow> nat \<Rightarrow> error + (heap \<times> nat)" where
  "mask_keypoints_h pcutoff h keypoints_with_scores =
     (case new_array h (xy_slice (cells h keypoints_with_scores)) of (h1, keypoints) \<Rightarrow>
        (case pcutoff of
           None \<Rightarrow> Inr (h1, keypoints)
         | Some p \<Rightarrow>
             bind (score_below (cells h1 keypoints_with_scores) p) (\<lambda>m.
               Inr (h1\<lparr>cells := (cells h1)(keypoints := set_nan m (cells h1 keypoints))\<rparr>,
                    keypoints))))"

fun mask_predictions_h :: "fl option \<Rightarrow> heap \<Rightarrow> nat dict \<Rightarrow> error + (heap \<times> nat dict)" where
  "mask_predictions_h pcutoff h [] = Inr (h, [])"
| "mask_predictions_h pcutoff h ((image_path, keypoints_with_scores) # rest) =
     bind (mask_keypoints_h pcutoff h keypoints_with_scores) (\<lambda>(h1, keypoints).
       bind (mask_predictions_h pcutoff h1 rest) (\<lambda>(h2, masked).
         Inr (h2, (image_path, keypoints) # masked)))"

definition deref :: "heap \<Rightarrow> nat dict \<Rightarrow> ndarray3 dict" where
  "deref h d = map (\<lambda>(image_path, r). (image_path, cells h r)) d"

definition compute_oks_h ::
  "'k evaluator \<Rightarrow> heap \<Rightarrow> nat dict \<Rightarrow> nat dict \<Rightarrow> real \<Rightarrow> real \<Rightarrow> 'k option \<Rightarrow> fl option
    \<Rightarrow> error + (heap \<times> nat dict \<times> (fl \<times> fl))" where
  "compute_oks_h evaluate_assembly h pred ground_truth oks_sigma margin symmetric_kpts pcutoff =
     bind (mask_predictions_h pcutoff h pred) (\<lambda>(h1, masked_pred).
       let assemblies_pred = build_assemblies (deref h1 masked_pred);
           assemblies_gt = build_assemblies (deref h1 ground_truth)
       in bind (call_evaluator
                  (evaluate_assembly assemblies_pred assemblies_gt oks_sigma margin symmetric_kpts))
            (\<lambda>oks. Inr (h1, masked_pred, oks)))"

text \<open>
  A reference is allocated when it is below the next free address, and a dictionary of
  predictions is scored when each of its arrays has a column of scores.
\<close>

definition allocated :: "heap \<Rightarrow> nat dict \<Rightarrow> bool" where
  "allocated h d = list_all (\<lambda>(image_path, r). r < next_free h) d"

definition scored :: "heap \<Rightarrow> nat dict \<Rightarrow> bool" where
  "scored h d = list_all (\<lambda>(image_path, r). 3 \<le> n_columns (cells h r)) d"

text \<open>
  What the specification asks of the masked copy of a prediction array: the same
  individuals and keypoints, the two coordinate columns, NaN in both at every keypoint
  whose score is below the cutoff, and the value of the original everywhere else.
\<close>

definition masked_from :: "fl \<Rightarrow> ndarray3 \<Rightarrow> ndarray3 \<Rightarrow> bool" where
  "masked_from pcutoff orig m =
     (n_individuals m = n_individuals orig \<and> n_keypoints m = n_keypoints orig
      \<and> n_columns m = 2
      \<and> (\<forall>i k c. item m i k c = (if flt (item orig i k 2) pcutoff then NaN else item orig i k c)))"

text \<open>
  A prediction to run the functions on: two individuals of two keypoints each. At the
  cutoff \<open>1/2\<close> both keypoints of the first individual and the second keypoint of the
  second one are below the cutoff.
\<close>

definition example_prediction :: ndarray3 where
  "example_prediction =
     np_array [[[Fin 1, Fin 2, Fin (3 / 10)], [Fin 3, Fin 4, Fin (2 / 10)]],
               [[Fin 5, Fin 6, Fin (9 / 10)], [Fin 7, Fin 8, Fin (1 / 10)]]]"

definition example_heap :: heap where
  "example_heap = \<lparr>cells = (\<lambda>r. example_prediction), next_free = 2\<rparr>"

section \<open>The scoring entry point\<close>

record scores =
  rmse :: fl
  rmse_pcutoff :: fl
  mAP :: fl
  mAR :: fl
  mAP_pcutoff :: fl
  mAR_pcutoff :: fl

fun fmul :: "fl \<Rightarrow> fl \<Rightarrow> fl" where
  "fmul (Fin a) (Fin b) = Fin (a * b)"
| "fmul _ _ = NaN"

text \<open>
  The rows of the predictions and of the ground truth that \<^verbatim>\<open>get_scores\<close> hands to
  \<^verbatim>\<open>compute_rmse\<close>: the stacked arrays, reshaped to rows of three and of two values.
  Subscripting \<^verbatim>\<open>None\<close> raises \<^verbatim>\<open>TypeError\<close>.
\<close>

definition pred_rows :: "ndarray3 dict \<Rightarrow> string list \<Rightarrow> error + pred_row list" where
  "pred_rows poses image_paths =
     bind (build_keypoint_array poses image_paths) (\<lambda>a. reshape_neg1_3 (ravel (slice_last 3 a)))"

definition gt_rows :: "ndarray3 dict \<Rightarrow> string list \<Rightarrow> error + gt_row list" where
  "gt_rows ground_truth image_paths =
     bind (build_keypoint_array ground_truth image_paths) (\<lambda>a. reshape_neg1_2 (ravel a))"

definition rmse_inputs ::
  "ndarray3 dict \<Rightarrow> ndarray3 dict \<Rightarrow> ndarray3 dict option \<Rightarrow> ndarray3 dict option
    \<Rightarrow> error + (pred_row list \<times> gt_row list)" where
  "rmse_inputs poses ground_truth unique_bodypart_poses unique_bodypart_gt =
     (let image_paths = map fst poses
      in bind (pred_rows poses image_paths) (\<lambda>pred_poses.
         bind (gt_rows ground_truth image_paths) (\<lambda>gt_poses.
           case unique_bodypart_poses of
             None \<Rightarrow> Inr (pred_poses, gt_poses)
           | Some ubp \<Rightarrow>
               bind (pred_rows ubp image_paths) (\<lambda>unique_pred.
               bind (case unique_bodypart_gt of
                       None \<Rightarrow> Inl TypeError
                     | Some ubg \<Rightarrow> gt_rows ubg image_paths) (\<lambda>unique_gt.
                 Inr (pred_poses @ unique_pred, gt_poses @ unique_gt))))))"

definition get_scores ::
  "'k evaluator \<Rightarrow> ndarray3 dict \<Rightarrow> ndarray3 dict \<Rightarrow> ndarray3 dict option
    \<Rightarrow> ndarray3 dict option \<Rightarrow> fl \<Rightarrow> error + scores" where
  "get_scores evaluate_assembly poses ground_truth unique_bodypart_poses unique_bodypart_gt
      pcutoff =
     (if \<not> length poses = length ground_truth
      then Inl (ValueError (ImageCountMismatch (length poses) (length ground_truth)))
      else
        bind (rmse_inputs poses ground_truth unique_bodypart_poses unique_bodypart_gt)
          (\<lambda>(pred_poses, gt_poses).
        bind (compute_rmse pred_poses gt_poses pcutoff) (\<lambda>(r, r_pcutoff).
        bind (compute_oks evaluate_assembly poses ground_truth (1 / 10) 0 None None) (\<lambda>oks.
        bind (compute_oks evaluate_assembly poses ground_truth (1 / 10) 0 None (Some pcutoff))
          (\<lambda>oks_pcutoff.
          Inr \<lparr>rmse = r, rmse_pcutoff = r_pcutoff,
               mAP = fmul (Fin 100) (fst oks), mAR = fmul (Fin 100) (snd oks),
               mAP_pcutoff = fmul (Fin 100) (fst oks_pcutoff),
               mAR_pcutoff = fmul (Fin 100) (snd oks_pcutoff)\<rparr>)))))"

text \<open>
  The keypoints of an array in the order of its rows, as the pairs \<open>(x, y)\<close> of their
  first two columns and as the triples of their first three, and the pairs that
  grouping by two makes of a sequence of triples \<open>x, y, v\<close>: every second pair holds a
  third column \<open>v\<close> and the \<open>x\<close> of the next keypoint, every third a \<open>y\<close> and a \<open>v\<close>.
\<close>

definition keypoint_pairs :: "ndarray3 \<Rightarrow> gt_row list" where
  "keypoint_pairs a =
     concat (map (\<lambda>i. map (\<lambda>k. (item a i k 0, item a i k 1)) [0..<n_keypoints a])
       [0..<n_individuals a])"

definition keypoint_triples :: "ndarray3 \<Rightarrow> pred_row list" where
  "keypoint_triples a =
     concat (map (\<lambda>i. map (\<lambda>k. (item a i k 0, item a i k 1, item a i k 2)) [0..<n_keypoints a])
       [0..<n_individuals a])"

fun regroup :: "pred_row list \<Rightarrow> gt_row list" where
  "regroup ((x0, y0, v0) # (x1, y1, v1) # ks) = (x0, y0) # (v0, x1) # (y1, v1) # regroup ks"
| "regroup [(x0, y0, v0)] = [(x0, y0)]"
| "regroup [] = []"

text \<open>A sequence of pairs and a sequence of triples, written out value by value.\<close>

definition unpair :: "gt_row list \<Rightarrow> fl list" where
  "unpair ps = concat (map (\<lambda>(x, y). [x, y]) ps)"

definition untriple :: "pred_row list \<Rightarrow> fl list" where
  "untriple ts = concat (map (\<lambda>(x, y, v). [x, y, v]) ts)"

text \<open>The first \<open>nc\<close> columns of an array, row by row.\<close>

definition flat3 :: "nat \<Rightarrow> ndarray3 \<Rightarrow> fl list" where
  "flat3 nc a =
     concat (map (\<lambda>i. concat (map (\<lambda>k. map (\<lambda>c. item a i k c) [0..<nc])
       [0..<n_keypoints a])) [0..<n_individuals a])"

text \<open>The errors that the image-count guard of \<^verbatim>\<open>get_scores\<close> raises.\<close>

fun from_guard :: "error \<Rightarrow> bool" where
  "from_guard (ValueError (ImageCountMismatch n m)) = True"
| "from_guard _ = False"

text \<open>
  The score dictionary that \<^verbatim>\<open>get_scores\<close> builds from the two RMSE values and the two
  results of the evaluator, and an evaluator that returns on every input.
\<close>

definition score_dictionary :: "fl \<times> fl \<Rightarrow> fl \<times> fl \<Rightarrow> fl \<times> fl \<Rightarrow> scores" where
  "score_dictionary r oks oks_pcutoff =
     \<lparr>rmse = fst r, rmse_pcutoff = snd r,
      mAP = fmul (Fin 100) (fst oks), mAR = fmul (Fin 100) (snd oks),
      mAP_pcutoff = fmul (Fin 100) (fst oks_pcutoff),
      mAR_pcutoff = fmul (Fin 100) (snd oks_pcutoff)\<rparr>"

definition returning :: "'k evaluator \<Rightarrow> bool" where
  "returning evaluate_assembly = (\<forall>p g s m k. evaluate_assembly p g s m k \<noteq> None)"

text \<open>
  Inputs to run \<^verbatim>\<open>get_scores\<close> on: the ground truth of the example prediction, with
  the same coordinates and two columns; and a ground truth of two keypoints with a
  third column, with a prediction of three keypoints and with one of two.
\<close>

definition example_ground_truth :: ndarray3 where
  "example_ground_truth =
     np_array [[[Fin 1, Fin 2], [Fin 3, Fin 4]], [[Fin 5, Fin 6], [Fin 7, Fin 8]]]"

definition visible_ground_truth :: ndarray3 where
  "visible_ground_truth = np_array [[[Fin 0, Fin 0, Fin 1], [Fin 1, Fin 1, Fin 1]]]"

definition three_keypoints :: ndarray3 where
  "three_keypoints =
     np_array [[[Fin 0, Fin 0, Fin (9 / 10)], [Fin 1, Fin 1, Fin (9 / 10)],
                [Fin 1, Fin 1, Fin (9 / 10)]]]"

definition two_keypoints :: ndarray3 where
  "two_keypoints = np_array [[[Fin 0, Fin 0, Fin (9 / 10)], [Fin 1, Fin 1, Fin (9 / 10)]]]"

section \<open>The heatmap predictor\<close>

text \<open>
  The tensors of \<^verbatim>\<open>single_predictor.py\<close>: a shape and the entries by index. The
  heatmap values are real numbers (a NaN has no place in the order that \<^verbatim>\<open>torch.topk\<close>
  sorts by, and is outside the model). The location refinement field, of shape
  \<open>(batch, height, width, joints, 2)\<close>, is a four-dimensional tensor of pairs.
\<close>

record 'a tensor3 =
  len0 :: nat
  len1 :: nat
  len2 :: nat
  elem3 :: "nat \<Rightarrow> nat \<Rightarrow> nat \<Rightarrow> 'a"

record 'a tensor4 =
  dim0 :: nat
  dim1 :: nat
  dim2 :: nat
  dim3 :: nat
  elem :: "nat \<Rightarrow> nat \<Rightarrow> nat \<Rightarrow> nat \<Rightarrow> 'a"

record predictor =
  apply_sigmoid :: bool
  clip_scores :: bool
  location_refinement :: bool
  locref_std :: real

text \<open>The constructor, with the defaults of its keyword arguments.\<close>

definition HeatmapPredictor ::
  "bool option \<Rightarrow> bool option \<Rightarrow> bool option \<Rightarrow> real option \<Rightarrow> predictor" where
  "HeatmapPredictor a c l s =
     \<lparr>apply_sigmoid = (case a of None \<Rightarrow> True | Some v \<Rightarrow> v),
      clip_scores = (case c of None \<Rightarrow> False | Some v \<Rightarrow> v),
      location_refinement = (case l of None \<Rightarrow> True | Some v \<Rightarrow> v),
      locref_std = (case s of None \<Rightarrow> 72801 / 10000 | Some v \<Rightarrow> v)\<rparr>"

text \<open>
  \<^verbatim>\<open>torch.topk\<close> of a list: the positions of the \<open>k\<close> largest values, by decreasing
  value. The library leaves the order of equal values open; here the earlier position
  comes first.
\<close>

definition topk_indices :: "real list \<Rightarrow> nat \<Rightarrow> nat list" where
  "topk_indices xs k = take k (map snd (sort_key (\<lambda>p. - fst p) (zip xs [0..<length xs])))"

text \<open>
  \<^verbatim>\<open>get_top_values\<close>: the heatmap of shape \<open>(batchsize, ny, nx, num_joints)\<close> is
  flattened over its two spatial axes, \<^verbatim>\<open>torch.topk\<close> runs along the flattened axis for
  every batch item and joint (it raises when \<open>n_top\<close> is negative or exceeds the length
  of that axis), and the flat positions are split into a row and a column.
\<close>

definition heatmap_flat :: "real tensor4 \<Rightarrow> nat \<Rightarrow> nat \<Rightarrow> real list" where
  "heatmap_flat heatmap b j =
     (let ny = dim1 heatmap; nx = dim2 heatmap
      in map (\<lambda>i. elem heatmap b (i div nx) (i mod nx) j) [0..<nx * ny])"

definition heatmap_top :: "real tensor4 \<Rightarrow> int \<Rightarrow> error + nat tensor3" where
  "heatmap_top heatmap n_top =
     (let ny = dim1 heatmap; nx = dim2 heatmap
      in if n_top < 0 \<or> int (nx * ny) < n_top then Inl RuntimeError
         else Inr \<lparr>len0 = dim0 heatmap, len1 = nat n_top, len2 = dim3 heatmap,
                   elem3 = (\<lambda>b n j. topk_indices (heatmap_flat heatmap b j) (nat n_top) ! n)\<rparr>)"

definition get_top_values :: "real tensor4 \<Rightarrow> int \<Rightarrow> error + (nat tensor3 \<times> nat tensor3)" where
  "get_top_values heatmap n_top =
     (let nx = dim2 heatmap
      in bind (heatmap_top heatmap n_top) (\<lambda>top.
           Inr (top\<lparr>elem3 := (\<lambda>b n j. elem3 top b n j div nx)\<rparr>,
                top\<lparr>elem3 := (\<lambda>b n j. elem3 top b n j mod nx)\<rparr>)))"

text \<open>
  The words of the specification for the top-k extractor: \<open>k\<close> positions of the grid,
  no two the same, by non-increasing confidence, such that no position left out has a
  larger confidence than a position selected.
\<close>

definition top_k_positions ::
  "real tensor4 \<Rightarrow> nat \<Rightarrow> nat \<Rightarrow> nat \<Rightarrow> (nat \<Rightarrow> nat \<times> nat) \<Rightarrow> bool" where
  "top_k_positions hm b j k pos =
     ((\<forall>n<k. fst (pos n) < dim1 hm \<and> snd (pos n) < dim2 hm)
      \<and> (\<forall>n<k. \<forall>m<k. n \<noteq> m \<longrightarrow> pos n \<noteq> pos m)
      \<and> (\<forall>n<k. \<forall>m<k. n \<le> m \<longrightarrow>
            elem hm b (fst (pos m)) (snd (pos m)) j \<le> elem hm b (fst (pos n)) (snd (pos n)) j)
      \<and> (\<forall>y<dim1 hm. \<forall>x<dim2 hm. (\<forall>n<k. pos n \<noteq> (y, x)) \<longrightarrow>
            (\<forall>n<k. elem hm b y x j \<le> elem hm b (fst (pos n)) (snd (pos n)) j)))"

text \<open>The values of a list with their positions, by decreasing value.\<close>

definition ranked :: "real list \<Rightarrow> (real \<times> nat) list" where
  "ranked xs = sort_key (\<lambda>p. - fst p) (zip xs [0..<length xs])"

text \<open>
  \<^verbatim>\<open>get_pose_prediction\<close>. The loops fill \<open>dz\<close>, which starts as zeros, with the heatmap
  value and, when a location refinement field is given, its pair at the candidate's
  position; reading the field outside its shape raises \<^verbatim>\<open>IndexError\<close>.
\<close>

definition inside :: "'a tensor4 \<Rightarrow> nat \<Rightarrow> nat \<Rightarrow> nat \<Rightarrow> nat \<Rightarrow> bool" where
  "inside t b y x j = (b < dim0 t \<and> y < dim1 t \<and> x < dim2 t \<and> j < dim3 t)"

definition fill_dz ::
  "real tensor4 \<Rightarrow> (real \<times> real) tensor4 option \<Rightarrow> nat tensor3 \<Rightarrow> nat tensor3 \<Rightarrow> nat \<Rightarrow> nat
    \<Rightarrow> nat \<Rightarrow> error + (nat \<Rightarrow> nat \<Rightarrow> nat \<Rightarrow> nat \<Rightarrow> real)" where
  "fill_dz heatmap locref y x num_outputs batch_size num_joints =
     (case locref of
        None \<Rightarrow>
          Inr (\<lambda>b n j c. if c = 2 then elem heatmap b (elem3 y b n j) (elem3 x b n j) j else 0)
      | Some l \<Rightarrow>
          if list_ex (\<lambda>n. list_ex (\<lambda>b. list_ex (\<lambda>j.
               \<not> inside l b (elem3 y b n j) (elem3 x b n j) j)
               [0..<num_joints]) [0..<batch_size]) [0..<num_outputs]
          then Inl IndexError
          else Inr (\<lambda>b n j c.
                 if c = 2 then elem heatmap b (elem3 y b n j) (elem3 x b n j) j
                 else if c = 0 then fst (elem l b (elem3 y b n j) (elem3 x b n j) j)
                 else snd (elem l b (elem3 y b n j) (elem3 x b n j) j)))"

definition get_pose_prediction ::
  "real tensor4 \<Rightarrow> (real \<times> real) tensor4 option \<Rightarrow> real \<times> real \<Rightarrow> int
    \<Rightarrow> error + real tensor4" where
  "get_pose_prediction heatmap locref scale_factors num_outputs =
     bind (get_top_values heatmap num_outputs) (\<lambda>(y, x).
       let batch_size = dim0 heatmap; num_joints = dim3 heatmap
       in bind (fill_dz heatmap locref y x (nat num_outputs) batch_size num_joints) (\<lambda>dz.
            let x' = (\<lambda>b n j. real (elem3 x b n j) * snd scale_factors
                         + 0.5 * snd scale_factors + dz b n j 0);
                y' = (\<lambda>b n j. real (elem3 y b n j) * fst scale_factors
                         + 0.5 * fst scale_factors + dz b n j 1)
            in Inr \<lparr>dim0 = batch_size, dim1 = nat num_outputs, dim2 = num_joints, dim3 = 3,
                    elem = (\<lambda>b n j c. if c = 0 then x' b n j
                                       else if c = 1 then y' b n j else dz b n j 2)\<rparr>))"

text \<open>
  \<^verbatim>\<open>forward\<close>. The model heads deliver the heatmap channel-first, of shape
  \<open>(batch, channels, height, width)\<close>; \<^verbatim>\<open>permute(0, 2, 3, 1)\<close> moves the channels last.
  The location refinement output is permuted the same way and reshaped, in row-major
  order, to \<open>(batch_size, height, width, num_joints, 2)\<close>, which raises when the number
  of entries differs, and multiplied by \<open>locref_std\<close>.
\<close>

definition sigmoid :: "real \<Rightarrow> real" where
  "sigmoid v = 1 / (1 + exp (- v))"

definition clip :: "real \<Rightarrow> real" where
  "clip v = min (max v 0) 1"

definition permute_0231 :: "'a tensor4 \<Rightarrow> 'a tensor4" where
  "permute_0231 t =
     \<lparr>dim0 = dim0 t, dim1 = dim2 t, dim2 = dim3 t, dim3 = dim1 t,
      elem = (\<lambda>b y x j. elem t b j y x)\<rparr>"

definition flat_elem :: "'a tensor4 \<Rightarrow> nat \<Rightarrow> 'a" where
  "flat_elem t f =
     elem t (f div (dim1 t * dim2 t * dim3 t)) (f div (dim2 t * dim3 t) mod dim1 t)
       (f div dim3 t mod dim2 t) (f mod dim3 t)"

definition reshape_locref ::
  "real tensor4 \<Rightarrow> nat \<Rightarrow> nat \<Rightarrow> nat \<Rightarrow> nat \<Rightarrow> error + (real \<times> real) tensor4" where
  "reshape_locref t batch_size height width num_joints =
     (if dim0 t * dim1 t * dim2 t * dim3 t \<noteq> batch_size * height * width * num_joints * 2
      then Inl RuntimeError
      else Inr \<lparr>dim0 = batch_size, dim1 = height, dim2 = width, dim3 = num_joints,
                elem = (\<lambda>b y x j.
                  (flat_elem t ((((b * height + y) * width + x) * num_joints + j) * 2),
                   flat_elem t ((((b * height + y) * width + x) * num_joints + j) * 2 + 1)))\<rparr>)"

definition get_output :: "(string \<Rightarrow> 'a option) \<Rightarrow> string \<Rightarrow> error + 'a" where
  "get_output outputs k = (case outputs k of None \<Rightarrow> Inl (KeyError k) | Some v \<Rightarrow> Inr v)"

definition forward ::
  "predictor \<Rightarrow> real \<Rightarrow> (string \<Rightarrow> real tensor4 option) \<Rightarrow> int \<Rightarrow> error + real tensor4 dict" where
  "forward self stride outputs num_outputs =
     bind (get_output outputs ''heatmap'') (\<lambda>heatmaps.
       let scale_factors = (stride, stride);
           heatmaps = (if apply_sigmoid self
                       then heatmaps\<lparr>elem := (\<lambda>b j y x. sigmoid (elem heatmaps b j y x))\<rparr>
                       else heatmaps);
           heatmaps = permute_0231 heatmaps;
           batch_size = dim0 heatmaps; height = dim1 heatmaps;
           width = dim2 heatmaps; num_joints = dim3 heatmaps
       in bind (if location_refinement self
                then bind (get_output outputs ''locref'') (\<lambda>locrefs.
                     bind (reshape_locref (permute_0231 locrefs) batch_size height width num_joints)
                       (\<lambda>locrefs.
                         Inr (Some (locrefs\<lparr>elem := (\<lambda>b y x j.
                           (fst (elem locrefs b y x j) * locref_std self,
                            snd (elem locrefs b y x j) * locref_std self))\<rparr>))))
                else Inr None) (\<lambda>locrefs.
          bind (get_pose_prediction heatmaps locrefs scale_factors num_outputs) (\<lambda>poses.
            Inr [(''poses'',
                  if clip_scores self
                  then poses\<lparr>elem := (\<lambda>b n j c. if c = 2 then clip (elem poses b n j 2)
                                                  else elem poses b n j c)\<rparr>
                  else poses)])))"

text \<open>
  The parts of \<^verbatim>\<open>forward\<close> by name: the heatmap as \<^verbatim>\<open>get_pose_prediction\<close> receives
  it, the location refinement field multiplied by a constant, the scores of the result
  clipped on request, and the offset of a candidate, which is the pair of the field at
  its position, or zero without a field.
\<close>

definition input_heatmap :: "predictor \<Rightarrow> real tensor4 \<Rightarrow> real tensor4" where
  "input_heatmap self hm =
     permute_0231 (if apply_sigmoid self
                   then hm\<lparr>elem := (\<lambda>b j y x. sigmoid (elem hm b j y x))\<rparr> else hm)"

definition scale_locref :: "real \<Rightarrow> (real \<times> real) tensor4 \<Rightarrow> (real \<times> real) tensor4" where
  "scale_locref s l = l\<lparr>elem := (\<lambda>b y x j. (fst (elem l b y x j) * s, snd (elem l b y x j) * s))\<rparr>"

definition output_poses :: "predictor \<Rightarrow> real tensor4 \<Rightarrow> real tensor4" where
  "output_poses self poses =
     (if clip_scores self
      then poses\<lparr>elem := (\<lambda>b n j c. if c = 2 then clip (elem poses b n j 2)
                                      else elem poses b n j c)\<rparr>
      else poses)"

definition offset :: "(real \<times> real) tensor4 option \<Rightarrow> nat \<Rightarrow> nat \<Rightarrow> nat \<Rightarrow> nat \<Rightarrow> real \<times> real" where
  "offset locref b y x j = (case locref of None \<Rightarrow> (0, 0) | Some l \<Rightarrow> elem l b y x j)"

text \<open>
  A location refinement field covers a heatmap when it is absent or at least as large
  along every axis, so that no candidate of the heatmap falls outside it. The score of
  a candidate in the result of \<^verbatim>\<open>forward\<close> is the heatmap value, after the sigmoid and
  the clipping when they are configured.
\<close>

definition covers :: "(real \<times> real) tensor4 option \<Rightarrow> real tensor4 \<Rightarrow> bool" where
  "covers locref hm =
     (case locref of
        None \<Rightarrow> True
      | Some l \<Rightarrow> dim0 hm \<le> dim0 l \<and> dim1 hm \<le> dim1 l \<and> dim2 hm \<le> dim2 l \<and> dim3 hm \<le> dim3 l)"

definition output_score :: "predictor \<Rightarrow> real \<Rightarrow> real" where
  "output_score self v =
     (let s = (if apply_sigmoid self then sigmoid v else v)
      in if clip_scores self then clip s else s)"

definition shape4 :: "'a tensor4 \<Rightarrow> nat \<times> nat \<times> nat \<times> nat" where
  "shape4 t = (dim0 t, dim1 t, dim2 t, dim3 t)"

text \<open>
  Inputs to run the predictor on: a heatmap of one batch item over a grid of two rows
  and two columns with one joint, already in the layout of \<^verbatim>\<open>get_top_values\<close>, with a
  location refinement field that is \<open>(1, 2)\<close> everywhere, and a model output whose heatmap has the shape \<open>(1, 2, 3, 4)\<close>, for a predictor without
  location refinement; and the same heatmap as a model output of one channel, with a
  location refinement output of two channels that are 1 and 2 everywhere, for a
  predictor with location refinement and no sigmoid.
\<close>

definition example_heatmap :: "real tensor4" where
  "example_heatmap =
     \<lparr>dim0 = 1, dim1 = 2, dim2 = 2, dim3 = 1,
      elem = (\<lambda>b y x j. [[1 / 10, 7 / 10], [9 / 10, 3 / 10]] ! y ! x)\<rparr>"

definition example_locref :: "(real \<times> real) tensor4" where
  "example_locref = \<lparr>dim0 = 1, dim1 = 2, dim2 = 2, dim3 = 1, elem = (\<lambda>b y x j. (1, 2))\<rparr>"


definition refined_outputs :: "string \<Rightarrow> real tensor4 option" where
  "refined_outputs =
     [''heatmap'' \<mapsto> \<lparr>dim0 = 1, dim1 = 1, dim2 = 2, dim3 = 2,
                      elem = (\<lambda>b c y x. [[1 / 10, 7 / 10], [9 / 10, 3 / 10]] ! y ! x)\<rparr>,
      ''locref'' \<mapsto> \<lparr>dim0 = 1, dim1 = 2, dim2 = 2, dim3 = 2,
                     elem = (\<lambda>b c y x. if c = 0 then 1 else 2)\<rparr>]"

definition refining_predictor :: predictor where
  "refining_predictor = HeatmapPredictor (Some False) None None None"



section \<open>Properties of the RMSE scorer\<close>

lemma foldl_fadd_replaced:
  "foldl fadd (Fin a) (map (\<lambda>x. if isnan x then Fin 0 else x) xs) =
     Fin (a + sum_list (concat (map (\<lambda>d. case d of Fin v \<Rightarrow> [v] | NaN \<Rightarrow> []) xs)))"
proof (induction xs arbitrary: a)
  case Nil
  then show ?case by simp
next
  case (Cons x xs)
  then show ?case by (cases x) (simp_all add: add.assoc)
qed

lemma count_not_nan:
  "length (filter (\<lambda>x. \<not> isnan x) xs) =
     length (concat (map (\<lambda>d. case d of Fin v \<Rightarrow> [v] | NaN \<Rightarrow> []) xs))"
proof (induction xs)
  case Nil
  then show ?case by simp
next
  case (Cons x xs)
  then show ?case by (cases x) simp_all
qed

lemma np_nanmean_eq: "np_nanmean xs = nan_excluding_mean xs"
  by (simp add: np_nanmean_def nan_excluding_mean_def np_sum_def foldl_fadd_replaced
      count_not_nan Let_def)

lemma row_distance:
  "fsqrt (fadd (fsquare (fsub x gx)) (fsquare (fsub y gy))) = euclidean_distance (x, y, s) (gx, gy)"
  by (cases x; cases y; cases gx; cases gy) (simp_all add: not_less)

lemma mask_select_filter:
  "length ps = length gs \<Longrightarrow>
   mask_select (map (\<lambda>(x, y, s). fge s pc) ps) (map h (zip ps gs)) =
     map h (filter (passes_cutoff pc) (zip ps gs))"
proof (induction ps gs rule: list_induct2)
  case Nil
  then show ?case by (simp add: mask_select_def)
next
  case (Cons p ps g gs)
  then show ?case by (cases p) (simp add: mask_select_def passes_cutoff_def)
qed

lemma nan_excluding_mean_all_nan: "list_all isnan ds \<Longrightarrow> nan_excluding_mean ds = NaN"
proof -
  assume a: "list_all isnan ds"
  have "concat (map (\<lambda>d. case d of Fin v \<Rightarrow> [v] | NaN \<Rightarrow> []) ds) = []"
    using a by (induction ds) (auto split: fl.splits)
  then show ?thesis by (simp add: nan_excluding_mean_def)
qed

lemma compute_rmse_eq:
  assumes "length pred = length ground_truth"
  shows "compute_rmse pred ground_truth pcutoff =
     Inr (nan_excluding_mean (map (\<lambda>(p, g). euclidean_distance p g) (zip pred ground_truth)),
          nan_excluding_mean (map (\<lambda>(p, g). euclidean_distance p g)
            (filter (passes_cutoff pcutoff) (zip pred ground_truth))))"
proof -
  let ?h = "\<lambda>(p, g). case p of (x, y, s) \<Rightarrow> case g of (gx, gy) \<Rightarrow> fadd (fsquare (fsub x gx)) (fsquare (fsub y gy))"
  have mse: "map (\<lambda>(a, b). fadd a b)
        (map2 (\<lambda>(x, y, s) (gx, gy). (fsquare (fsub x gx), fsquare (fsub y gy))) pred ground_truth)
      = map ?h (zip pred ground_truth)"
    by (auto simp: split_def)
  have d: "map (fsqrt \<circ> ?h) zs = map (\<lambda>(p, g). euclidean_distance p g) zs" for zs
    by (induction zs) (auto simp: row_distance)
  show ?thesis
    unfolding compute_rmse_def Let_def mse
    using assms
    by (simp add: mask_select_filter d np_nanmean_eq)
qed

text \<open>
  Claim C4. For a prediction of \<open>n\<close> rows and a ground truth of \<open>n\<close> rows,
  \<^verbatim>\<open>compute_rmse\<close> raises nothing and returns two values: the mean, over the rows
  whose distance is not NaN, of the Euclidean distances between the predicted and the
  true coordinates, and the same mean over the rows whose score is at least the cutoff.
  A mean over no row, or over rows whose distances are all NaN, is NaN.
\<close>

theorem compute_rmse_nan_excluding_mean:
  assumes "length pred = length ground_truth"
  shows "\<exists>r rp. compute_rmse pred ground_truth pcutoff = Inr (r, rp)
    \<and> r = nan_excluding_mean (distances (zip pred ground_truth))
    \<and> rp = nan_excluding_mean (distances (filter (passes_cutoff pcutoff) (zip pred ground_truth)))
    \<and> (list_all isnan (distances (zip pred ground_truth)) \<longrightarrow> r = NaN)
    \<and> (list_all isnan (distances (filter (passes_cutoff pcutoff) (zip pred ground_truth)))
          \<longrightarrow> rp = NaN)"
  using assms
  by (simp add: compute_rmse_eq distances_def nan_excluding_mean_all_nan)

theorem compute_rmse_nan_excluding_mean_witness:
  "compute_rmse [(Fin 1, Fin 0, Fin (9 / 10)), (Fin 1, Fin 1, Fin (2 / 10)), (NaN, Fin 0, Fin (8 / 10))]
     [(Fin 0, Fin 0), (Fin 1, Fin 1), (Fin 0, Fin 0)] (Fin (1 / 2)) = Inr (Fin (1 / 2), Fin 1)
   \<and> compute_rmse [(Fin 1, Fin 0, Fin (2 / 10)), (NaN, Fin 0, Fin (8 / 10))]
     [(Fin 0, Fin 0), (Fin 0, Fin 0)] (Fin (1 / 2)) = Inr (Fin 1, NaN)"
  using compute_rmse_nan_excluding_mean [of
      "[(Fin 1, Fin 0, Fin (9 / 10)), (Fin 1, Fin 1, Fin (2 / 10)), (NaN, Fin 0, Fin (8 / 10))]"
      "[(Fin 0, Fin 0), (Fin 1, Fin 1), (Fin 0, Fin 0)]" "Fin (1 / 2)"]
    compute_rmse_nan_excluding_mean [of
      "[(Fin 1, Fin 0, Fin (2 / 10)), (NaN, Fin 0, Fin (8 / 10))]"
      "[(Fin 0, Fin 0), (Fin 0, Fin 0)]" "Fin (1 / 2)"]
  by (simp add: distances_def passes_cutoff_def nan_excluding_mean_def)

text \<open>
  Claim C5. \<^verbatim>\<open>compute_rmse\<close> raises exactly when the prediction and the ground truth
  differ in their number of rows, and what it raises then is the \<^verbatim>\<open>ValueError\<close> of its
  guard; an error value carries no result.
\<close>

theorem compute_rmse_raises_iff_rows_differ:
  "(compute_rmse pred ground_truth pcutoff = Inl (ValueError NumElementsMismatch))
      = (length pred \<noteq> length ground_truth)
   \<and> isl (compute_rmse pred ground_truth pcutoff) = (length pred \<noteq> length ground_truth)"
  by (simp add: compute_rmse_def Let_def)

theorem compute_rmse_raises_iff_rows_differ_witness:
  "compute_rmse [(Fin 1, Fin 0, Fin 1)] [] (Fin (- 1)) = Inl (ValueError NumElementsMismatch)
   \<and> \<not> isl (compute_rmse [(Fin 1, Fin 0, Fin 1)] [(Fin 0, Fin 0)] (Fin (- 1)))"
  using compute_rmse_raises_iff_rows_differ [of "[(Fin 1, Fin 0, Fin 1)]" "[]" "Fin (- 1)"]
    compute_rmse_raises_iff_rows_differ [of "[(Fin 1, Fin 0, Fin 1)]" "[(Fin 0, Fin 0)]" "Fin (- 1)"]
  by simp

lemma filter_known_passes:
  "filter (\<lambda>z. known_score z \<and> passes_cutoff pc z) zs = filter (passes_cutoff pc) zs"
proof -
  have "passes_cutoff pc z \<Longrightarrow> known_score z" for z
    by (cases z) (auto simp: passes_cutoff_def known_score_def elim: fge.elims)
  then have "(known_score z \<and> passes_cutoff pc z) = passes_cutoff pc z" for z
    by blast
  then show ?thesis by simp
qed

text \<open>
  Claim C10. In \<^verbatim>\<open>compute_rmse\<close> a row whose score is NaN never passes the cutoff,
  whatever the cutoff is: the second mean is the mean over the rows that have a score
  and pass. So the two means can differ at the default cutoff \<open>-1\<close>.
\<close>

theorem nan_score_excluded_from_cutoff_mean:
  assumes "length pred = length ground_truth"
  shows "(\<forall>i < length pred. isnan (snd (snd (pred ! i))) \<longrightarrow>
            \<not> passes_cutoff pcutoff (pred ! i, ground_truth ! i))
    \<and> (\<exists>r rp. compute_rmse pred ground_truth pcutoff = Inr (r, rp)
         \<and> rp = nan_excluding_mean (distances (filter (passes_cutoff pcutoff)
                  (filter known_score (zip pred ground_truth)))))
    \<and> (\<exists>p g r rp. compute_rmse p g (Fin (- 1)) = Inr (r, rp) \<and> r \<noteq> rp)"
proof (intro conjI)
  show "\<forall>i < length pred. isnan (snd (snd (pred ! i))) \<longrightarrow>
            \<not> passes_cutoff pcutoff (pred ! i, ground_truth ! i)"
    by (auto simp: passes_cutoff_def split_def elim: isnan.elims)
  show "\<exists>r rp. compute_rmse pred ground_truth pcutoff = Inr (r, rp)
         \<and> rp = nan_excluding_mean (distances (filter (passes_cutoff pcutoff)
                  (filter known_score (zip pred ground_truth))))"
    using assms by (simp add: compute_rmse_eq distances_def filter_known_passes)
  have "compute_rmse [(Fin 0, Fin 0, NaN), (Fin 1, Fin 0, Fin 1)] [(Fin 0, Fin 0), (Fin 0, Fin 0)]
          (Fin (- 1)) = Inr (Fin (1 / 2), Fin 1)"
    by (simp add: compute_rmse_eq passes_cutoff_def nan_excluding_mean_def)
  then show "\<exists>p g r rp. compute_rmse p g (Fin (- 1)) = Inr (r, rp) \<and> r \<noteq> rp"
    by (intro exI conjI) (assumption, simp)
qed

theorem nan_score_excluded_from_cutoff_mean_witness:
  "compute_rmse [(Fin 0, Fin 0, NaN), (Fin 1, Fin 0, Fin 1)] [(Fin 0, Fin 0), (Fin 0, Fin 0)]
     (Fin (- 1)) = Inr (Fin (1 / 2), Fin 1)
   \<and> \<not> passes_cutoff (Fin (- 1)) ((Fin 0, Fin 0, NaN), (Fin 0, Fin 0))"
  using nan_score_excluded_from_cutoff_mean [of
      "[(Fin 0, Fin 0, NaN), (Fin 1, Fin 0, Fin 1)]" "[(Fin 0, Fin 0), (Fin 0, Fin 0)]" "Fin (- 1)"]
  by (simp add: compute_rmse_eq distances_def passes_cutoff_def known_score_def
      nan_excluding_mean_def)

section \<open>Properties of the scoring entry point\<close>

lemma bind_Inl: "(bind m f = Inl e) = (m = Inl e \<or> (\<exists>v. m = Inr v \<and> f v = Inl e))"
  by (cases m) (simp_all add: bind_def)

lemma bind_Inr [simp]: "bind (Inr v) f = f v"
  by (simp add: bind_def)

lemma bind_Inl_left [simp]: "bind (Inl e) f = Inl e"
  by (simp add: bind_def)

lemma collect_getitem_not_guard:
  "collect (getitem d) ks = Inl e \<Longrightarrow> \<not> from_guard e"
proof (induction ks)
  case Nil
  then show ?case by simp
next
  case (Cons k ks)
  then show ?case
    by (auto simp: bind_Inl getitem_def split: option.splits)
qed

lemma np_stack_not_guard: "np_stack arrays = Inl e \<Longrightarrow> \<not> from_guard e"
  by (cases arrays) (auto simp: np_stack_def split: if_splits)

lemma build_keypoint_array_not_guard:
  "build_keypoint_array d ks = Inl e \<Longrightarrow> \<not> from_guard e"
  by (auto simp: build_keypoint_array_def bind_Inl
      dest: collect_getitem_not_guard np_stack_not_guard)

lemma pred_rows_not_guard: "pred_rows d ks = Inl e \<Longrightarrow> \<not> from_guard e"
  by (auto simp: pred_rows_def bind_Inl reshape_neg1_3_def
      dest: build_keypoint_array_not_guard split: if_splits)

lemma gt_rows_not_guard: "gt_rows d ks = Inl e \<Longrightarrow> \<not> from_guard e"
  by (auto simp: gt_rows_def bind_Inl reshape_neg1_2_def
      dest: build_keypoint_array_not_guard split: if_splits)

lemma rmse_inputs_not_guard:
  "rmse_inputs p g up ug = Inl e \<Longrightarrow> \<not> from_guard e"
  by (auto simp: rmse_inputs_def Let_def bind_Inl
      dest: pred_rows_not_guard gt_rows_not_guard split: option.splits)

lemma compute_rmse_not_guard: "compute_rmse p g pc = Inl e \<Longrightarrow> \<not> from_guard e"
  by (auto simp: compute_rmse_def Let_def split: if_splits)

lemma mask_predictions_not_guard:
  "mask_predictions pc d = Inl e \<Longrightarrow> \<not> from_guard e"
  unfolding mask_predictions_def
proof (induction d)
  case Nil
  then show ?case by simp
next
  case (Cons x d)
  then show ?case
    by (cases x)
      (auto simp: bind_Inl mask_keypoints_def Let_def score_below_def
        split: option.splits if_splits)
qed

lemma compute_oks_not_guard:
  "compute_oks ev p g s m k pc = Inl e \<Longrightarrow> \<not> from_guard e"
  by (auto simp: compute_oks_def bind_Inl Let_def call_evaluator_def
      dest: mask_predictions_not_guard split: option.splits)

subsection \<open>Stacking and reshaping\<close>

lemma rows2_unpair: "rows2 (unpair ps @ rest) = ps @ rows2 rest"
  by (induction ps) (auto simp: unpair_def)

lemma rows3_untriple: "rows3 (untriple ts @ rest) = ts @ rows3 rest"
  by (induction ts) (auto simp: untriple_def)

lemma rows2_untriple: "rows2 (untriple ts) = regroup ts"
  by (induction ts rule: regroup.induct) (auto simp: untriple_def)

lemma length_unpair: "length (unpair ps) = 2 * length ps"
  by (induction ps) (auto simp: unpair_def)

lemma length_untriple: "length (untriple ts) = 3 * length ts"
  by (induction ts) (auto simp: untriple_def)

lemma unpair_append: "unpair (xs @ ys) = unpair xs @ unpair ys"
  by (simp add: unpair_def)

lemma untriple_append: "untriple (xs @ ys) = untriple xs @ untriple ys"
  by (simp add: untriple_def)

lemma unpair_concat: "unpair (concat xss) = concat (map unpair xss)"
  by (induction xss) (simp_all add: unpair_append, simp add: unpair_def)

lemma untriple_concat: "untriple (concat xss) = concat (map untriple xss)"
  by (induction xss) (simp_all add: untriple_append, simp add: untriple_def)

lemma upt_2: "[0..<2] = [0, Suc 0]"
  by (simp add: numeral_2_eq_2)

lemma upt_3: "[0..<3] = [0, Suc 0, 2]"
  by (simp add: numeral_3_eq_3 numeral_2_eq_2)

lemma pair_rows: "concat (map (\<lambda>k. [g k 0, g k (Suc 0)]) ks) = unpair (map (\<lambda>k. (g k 0, g k (Suc 0))) ks)"
  by (simp add: unpair_def comp_def)

lemma triple_rows:
  "concat (map (\<lambda>k. [g k 0, g k (Suc 0), g k 2]) ks)
     = untriple (map (\<lambda>k. (g k 0, g k (Suc 0), g k 2)) ks)"
  by (simp add: untriple_def comp_def)

lemma unpair_Nil [simp]: "unpair [] = []"
  by (simp add: unpair_def)

lemma untriple_Nil [simp]: "untriple [] = []"
  by (simp add: untriple_def)

lemma pairs_gen:
  "concat (map (\<lambda>i. concat (map (\<lambda>k. [f i k 0, f i k (Suc 0)]) ks)) js)
     = unpair (concat (map (\<lambda>i. map (\<lambda>k. (f i k 0, f i k (Suc 0))) ks) js))"
proof (induction js)
  case Nil
  then show ?case by simp
next
  case (Cons j js)
  show ?case
    unfolding list.map concat.simps unpair_append Cons.IH
    by (simp only: pair_rows)
qed

lemma triples_gen:
  "concat (map (\<lambda>i. concat (map (\<lambda>k. [f i k 0, f i k (Suc 0), f i k 2]) ks)) js)
     = untriple (concat (map (\<lambda>i. map (\<lambda>k. (f i k 0, f i k (Suc 0), f i k 2)) ks) js))"
proof (induction js)
  case Nil
  then show ?case by simp
next
  case (Cons j js)
  show ?case
    unfolding list.map concat.simps untriple_append Cons.IH
    by (simp only: triple_rows)
qed

lemma flat3_pairs: "flat3 2 a = unpair (keypoint_pairs a)"
  unfolding flat3_def keypoint_pairs_def upt_2 list.map One_nat_def
  by (rule pairs_gen)

lemma flat3_triples: "flat3 3 a = untriple (keypoint_triples a)"
  unfolding flat3_def keypoint_triples_def upt_3 list.map One_nat_def
  by (rule triples_gen)

lemma flat3_pairs_fun: "flat3 2 = unpair \<circ> keypoint_pairs"
  by (rule ext) (simp add: flat3_pairs)

lemma flat3_triples_fun: "flat3 3 = untriple \<circ> keypoint_triples"
  by (rule ext) (simp add: flat3_triples)

lemma ravel_stack:
  assumes "np_stack arrays = Inr a" and "\<forall>b\<in>set arrays. shape_of b = (ni, nk, nc)"
  shows "ravel (slice_last m a) = concat (map (flat3 (min nc m)) arrays)"
proof -
  obtain b rest where ar: "arrays = b # rest"
    using assms(1) by (cases arrays) (auto simp: np_stack_def)
  have a: "a = \<lparr>n_images = length arrays, shape3 = (ni, nk, nc),
                  item4 = (\<lambda>n. item (arrays ! n))\<rparr>"
    using assms by (auto simp: np_stack_def ar split: if_splits)
  have dims: "n_individuals b = ni \<and> n_keypoints b = nk" if "b \<in> set arrays" for b
    using assms(2) that by (auto simp: shape_of_def)
  have "ravel (slice_last m a) =
      concat (map (\<lambda>n. concat (map (\<lambda>i. concat (map (\<lambda>k. map (\<lambda>c. item (arrays ! n) i k c)
          [0..<min nc m]) [0..<nk])) [0..<ni])) [0..<length arrays])"
    by (simp add: a ravel_def slice_last_def)
  also have "\<dots> = concat (map (\<lambda>b. concat (map (\<lambda>i. concat (map (\<lambda>k. map (\<lambda>c. item b i k c)
          [0..<min nc m]) [0..<nk])) [0..<ni])) arrays)"
    by (intro arg_cong[where f = concat] nth_equalityI) simp_all
  also have "\<dots> = concat (map (flat3 (min nc m)) arrays)"
    using dims by (intro arg_cong[where f = concat] map_cong) (auto simp: flat3_def)
  finally show ?thesis .
qed

lemma ravel_stack_full:
  assumes "np_stack arrays = Inr a" and "\<forall>b\<in>set arrays. shape_of b = (ni, nk, nc)"
  shows "ravel a = concat (map (flat3 nc) arrays)"
proof -
  have "slice_last nc a = a"
    using assms by (cases arrays) (auto simp: np_stack_def slice_last_def split: if_splits)
  then show ?thesis using ravel_stack [OF assms, of nc] by simp
qed

lemma np_stack_ok:
  assumes "arrays \<noteq> []" and "\<forall>b\<in>set arrays. shape_of b = sh"
  shows "\<exists>a. np_stack arrays = Inr a"
  using assms by (cases arrays) (auto simp: np_stack_def list_ex_iff)

lemma gt_rows_two_columns:
  assumes "collect (getitem ground_truth) keys = Inr arrays" and "arrays \<noteq> []"
    and "\<forall>b\<in>set arrays. shape_of b = (ni, nk, 2)"
  shows "gt_rows ground_truth keys = Inr (concat (map keypoint_pairs arrays))"
proof -
  obtain a where a: "np_stack arrays = Inr a"
    using np_stack_ok [OF assms(2,3)] by blast
  have "ravel a = unpair (concat (map keypoint_pairs arrays))"
    using ravel_stack_full [OF a assms(3)] by (simp add: unpair_concat flat3_pairs_fun)
  then show ?thesis
    using rows2_unpair [of "concat (map keypoint_pairs arrays)" "[]"]
    by (simp add: gt_rows_def build_keypoint_array_def assms(1) a reshape_neg1_2_def length_unpair)
qed

lemma gt_rows_three_columns:
  assumes "collect (getitem ground_truth) keys = Inr arrays" and "arrays \<noteq> []"
    and "\<forall>b\<in>set arrays. shape_of b = (ni, nk, 3)"
    and "even (length (concat (map keypoint_triples arrays)))"
  shows "gt_rows ground_truth keys = Inr (regroup (concat (map keypoint_triples arrays)))"
proof -
  obtain a where a: "np_stack arrays = Inr a"
    using np_stack_ok [OF assms(2,3)] by blast
  have "ravel a = untriple (concat (map keypoint_triples arrays))"
    using ravel_stack_full [OF a assms(3)] by (simp add: untriple_concat flat3_triples_fun)
  then show ?thesis
    using assms(4)
    by (simp add: gt_rows_def build_keypoint_array_def assms(1) a reshape_neg1_2_def
        length_untriple rows2_untriple)
qed

lemma pred_rows_three_columns:
  assumes "collect (getitem poses) keys = Inr arrays" and "arrays \<noteq> []"
    and "\<forall>b\<in>set arrays. shape_of b = (ni, nk, nc)" and "3 \<le> nc"
  shows "pred_rows poses keys = Inr (concat (map keypoint_triples arrays))"
proof -
  obtain a where a: "np_stack arrays = Inr a"
    using np_stack_ok [OF assms(2,3)] by blast
  have "min nc 3 = 3" using assms(4) by simp
  then have "ravel (slice_last 3 a) = untriple (concat (map keypoint_triples arrays))"
    using ravel_stack [OF a assms(3), of 3] by (simp add: untriple_concat flat3_triples_fun)
  then show ?thesis
    using rows3_untriple [of "concat (map keypoint_triples arrays)" "[]"]
    by (simp add: pred_rows_def build_keypoint_array_def assms(1) a reshape_neg1_3_def
        length_untriple)
qed

lemma length_collect: "collect f xs = Inr ys \<Longrightarrow> length ys = length xs"
proof (induction xs arbitrary: ys)
  case Nil
  then show ?case by simp
next
  case (Cons x xs)
  then show ?case by (cases "f x"; cases "collect f xs") auto
qed

lemma length_keypoint_triples:
  "length (keypoint_triples a) = n_individuals a * n_keypoints a"
  by (simp add: keypoint_triples_def length_concat comp_def sum_list_triv)

lemma length_stacked_triples:
  "\<forall>b\<in>set arrays. shape_of b = (mi, mk, mc) \<Longrightarrow>
   length (concat (map keypoint_triples arrays)) = length arrays * mi * mk"
  by (induction arrays) (auto simp: length_keypoint_triples shape_of_def algebra_simps)

lemma get_scores_rmse:
  assumes "length poses = length ground_truth"
    and "rmse_inputs poses ground_truth up ug = Inr (p, g)"
    and "get_scores ev poses ground_truth up ug pcutoff = Inr sc"
  shows "compute_rmse p g pcutoff = Inr (rmse sc, rmse_pcutoff sc)"
proof (cases "compute_rmse p g pcutoff")
  case (Inl e)
  then show ?thesis using assms by (simp add: get_scores_def)
next
  case (Inr r)
  then show ?thesis
    using assms
    by (cases r; cases "compute_oks ev poses ground_truth (1 / 10) 0 None None";
        cases "compute_oks ev poses ground_truth (1 / 10) 0 None (Some pcutoff)")
      (auto simp: get_scores_def)
qed

section \<open>Properties of the OKS scorer\<close>

lemma assembly_joints_finite:
  "(j, row) \<in> set (Assembly_from_array rows) \<Longrightarrow> finite_joint row \<and> row \<in> set rows"
  by (auto simp: Assembly_from_array_def dest: set_zip_rightD)

lemma len_assembly_nonzero:
  "(0 < len_assembly (Assembly_from_array rows)) = (\<exists>row\<in>set rows. finite_joint row)"
proof
  assume "0 < len_assembly (Assembly_from_array rows)"
  then obtain j row where "(j, row) \<in> set (Assembly_from_array rows)"
    by (cases "Assembly_from_array rows") (auto simp: len_assembly_def)
  then show "\<exists>row\<in>set rows. finite_joint row"
    using assembly_joints_finite by blast
next
  assume "\<exists>row\<in>set rows. finite_joint row"
  then obtain k where k: "k < length rows" "finite_joint (rows ! k)"
    by (auto simp: in_set_conv_nth)
  then have "(k, rows ! k) \<in> set (zip [0..<length rows] rows)"
    by (auto simp: set_zip intro!: exI[of _ k])
  then have "(k, rows ! k) \<in> set (Assembly_from_array rows)"
    using k(2) by (simp add: Assembly_from_array_def)
  then show "0 < len_assembly (Assembly_from_array rows)"
    by (auto simp: len_assembly_def)
qed

lemma image_assemblies_nonempty:
  "a \<in> set (image_assemblies keypoints) \<Longrightarrow>
     len_assembly a \<noteq> 0 \<and> (\<forall>(j, row)\<in>set a. finite_joint row)"
  by (auto simp: image_assemblies_def dest: assembly_joints_finite)

lemma length_filter_map_le:
  "(\<And>x. x \<in> set xs \<Longrightarrow> P (f x) \<Longrightarrow> Q (g x)) \<Longrightarrow>
   length (filter P (map f xs)) \<le> length (filter Q (map g xs))"
  by (induction xs) auto

lemma mask_keypoints_None: "mask_keypoints None a = Inr (xy_slice a)"
  by (simp add: mask_keypoints_def)

lemma mask_keypoints_Some:
  "mask_keypoints (Some p) a = Inr m \<Longrightarrow>
     3 \<le> n_columns a \<and> m = set_nan (\<lambda>i k. flt (item a i k 2) p) (xy_slice a)"
  by (auto simp: mask_keypoints_def score_below_def bind_def split: if_splits)

lemma masked_image_assemblies_le:
  assumes "mask_keypoints (Some p) a = Inr m"
  shows "length (image_assemblies m) \<le> length (image_assemblies (xy_slice a))"
proof -
  let ?b = "\<lambda>i k. flt (item a i k 2) p"
  have m: "m = set_nan ?b (xy_slice a)" and c: "3 \<le> n_columns a"
    using mask_keypoints_Some [OF assms] by auto
  have cols: "n_columns (xy_slice a) = 2"
    using c by (simp add: xy_slice_def)
  let ?rows = "\<lambda>t i. map (\<lambda>k. map (\<lambda>c. item t i k c) [0..<2]) [0..<n_keypoints a]"
  have im: "image_assemblies m = filter (\<lambda>assembly. len_assembly assembly \<noteq> 0)
      (map (\<lambda>i. Assembly_from_array (?rows m i)) [0..<n_individuals a])"
    using cols by (simp add: image_assemblies_def individuals_def m set_nan_def xy_slice_def comp_def)
  have iu: "image_assemblies (xy_slice a) = filter (\<lambda>assembly. len_assembly assembly \<noteq> 0)
      (map (\<lambda>i. Assembly_from_array (?rows (xy_slice a) i)) [0..<n_individuals a])"
    using cols by (simp add: image_assemblies_def individuals_def xy_slice_def comp_def)
  have "len_assembly (Assembly_from_array (?rows (xy_slice a) i)) \<noteq> 0"
    if "0 < len_assembly (Assembly_from_array (?rows m i))" for i
  proof -
    from that obtain k where k: "k < n_keypoints a"
        and f: "finite_joint (map (\<lambda>c. item m i k c) [0..<2])"
      by (auto simp: len_assembly_nonzero)
    have "\<not> ?b i k"
      using f by (auto simp: m set_nan_def finite_joint_def numeral_2_eq_2)
    then have "map (\<lambda>c. item m i k c) [0..<2] = map (\<lambda>c. item (xy_slice a) i k c) [0..<2]"
      by (simp add: m set_nan_def)
    with f have "finite_joint (map (\<lambda>c. item (xy_slice a) i k c) [0..<2])"
      by (simp only:)
    then show ?thesis
      using k by (auto simp: len_assembly_nonzero)
  qed
  then show ?thesis
    unfolding im iu by (intro length_filter_map_le) simp
qed

lemma bind_Inr_iff: "(bind m f = Inr r) = (\<exists>v. m = Inr v \<and> f v = Inr r)"
  by (cases m) (simp_all add: bind_def)

lemma masked_assemblies_le:
  "mask_predictions None pred = Inr unmasked \<Longrightarrow>
   mask_predictions (Some p) pred = Inr masked \<Longrightarrow>
   list_all2 (\<lambda>(path, am) (path', au). path = path' \<and> length am \<le> length au)
     (build_assemblies masked) (build_assemblies unmasked)"
  unfolding mask_predictions_def
proof (induction pred arbitrary: unmasked masked)
  case Nil
  then show ?case by (simp add: build_assemblies_def)
next
  case (Cons x pred)
  obtain path a where x: "x = (path, a)" by (cases x)
  from Cons.prems(1) obtain us where us: "unmasked = (path, xy_slice a) # us"
      and u': "collect (\<lambda>(image_path, keypoints_with_scores).
         bind (mask_keypoints None keypoints_with_scores)
           (\<lambda>keypoints. Inr (image_path, keypoints))) pred = Inr us"
    by (auto simp: x bind_Inr_iff mask_keypoints_None)
  from Cons.prems(2) obtain m ms where ms: "masked = (path, m) # ms"
      and m: "mask_keypoints (Some p) a = Inr m"
      and m': "collect (\<lambda>(image_path, keypoints_with_scores).
         bind (mask_keypoints (Some p) keypoints_with_scores)
           (\<lambda>keypoints. Inr (image_path, keypoints))) pred = Inr ms"
    by (auto simp: x bind_Inr_iff)
  show ?case
    using Cons.IH [OF u' m'] masked_image_assemblies_le [OF m]
    by (simp add: us ms build_assemblies_def)
qed

text \<open>
  Claim C7. No assembly that \<^verbatim>\<open>build_assemblies\<close> puts in the list of an image is
  empty, and every joint it retains has no NaN coordinate. For every prediction and
  cutoff, each image gets at most as many assemblies from the masked predictions as
  from the unmasked ones.
\<close>

theorem build_assemblies_drops_empty:
  "(\<forall>(image_path, assemblies)\<in>set (build_assemblies poses). \<forall>a\<in>set assemblies.
       len_assembly a \<noteq> 0 \<and> (\<forall>(j, row)\<in>set a. finite_joint row))
   \<and> (mask_predictions None pred = Inr unmasked \<and> mask_predictions (Some pcutoff) pred = Inr masked
        \<longrightarrow> list_all2 (\<lambda>(path, am) (path', au). path = path' \<and> length am \<le> length au)
              (build_assemblies masked) (build_assemblies unmasked))"
proof -
  have "len_assembly a \<noteq> 0 \<and> (\<forall>(j, row)\<in>set a. finite_joint row)"
    if "(image_path, assemblies) \<in> set (build_assemblies poses)" and "a \<in> set assemblies"
    for image_path assemblies a
  proof -
    from that(1) obtain keypoints where "assemblies = image_assemblies keypoints"
      by (auto simp: build_assemblies_def)
    then show ?thesis
      using that(2) image_assemblies_nonempty by blast
  qed
  then show ?thesis
    using masked_assemblies_le by blast
qed

theorem build_assemblies_drops_empty_witness:
  "\<exists>u m. mask_predictions None [(''img'', example_prediction)] = Inr u
     \<and> mask_predictions (Some (Fin (1 / 2))) [(''img'', example_prediction)] = Inr m
     \<and> list_all2 (\<lambda>(path, am) (path', au). path = path' \<and> length am \<le> length au)
          (build_assemblies m) (build_assemblies u)
     \<and> map (\<lambda>(path, a). length a) (build_assemblies m) = [1]
     \<and> map (\<lambda>(path, a). length a) (build_assemblies u) = [2]"
proof -
  let ?P = "[(''img'', example_prediction)]"
  let ?u = "[(''img'', xy_slice example_prediction)]"
  let ?m = "[(''img'', set_nan (\<lambda>i k. flt (item example_prediction i k 2) (Fin (1 / 2)))
              (xy_slice example_prediction))]"
  have u: "mask_predictions None ?P = Inr ?u"
    by (simp add: mask_predictions_def mask_keypoints_def)
  have m: "mask_predictions (Some (Fin (1 / 2))) ?P = Inr ?m"
    by (simp add: mask_predictions_def mask_keypoints_def score_below_def
        example_prediction_def np_array_def)
  have le: "list_all2 (\<lambda>(path, am) (path', au). path = path' \<and> length am \<le> length au)
      (build_assemblies ?m) (build_assemblies ?u)"
    using build_assemblies_drops_empty [of ?P ?P ?u "Fin (1 / 2)" ?m] u m by blast
  have cm: "map (\<lambda>(path, a). length a) (build_assemblies ?m) = [1]"
    by (simp add: build_assemblies_def image_assemblies_def individuals_def xy_slice_def
        set_nan_def example_prediction_def np_array_def Assembly_from_array_def
        finite_joint_def len_assembly_def upt_2)
  have cu: "map (\<lambda>(path, a). length a) (build_assemblies ?u) = [2]"
    by (simp add: build_assemblies_def image_assemblies_def individuals_def xy_slice_def
        example_prediction_def np_array_def Assembly_from_array_def
        finite_joint_def len_assembly_def upt_2)
  show ?thesis
    by (intro exI [of _ ?u] exI [of _ ?m] conjI) (rule u m le cm cu)+
qed

subsection \<open>The masking and the store\<close>

lemma mask_keypoints_masked_from:
  "mask_keypoints (Some p) a = Inr m \<Longrightarrow> masked_from p a m"
  by (auto dest!: mask_keypoints_Some simp: masked_from_def set_nan_def xy_slice_def)

lemma mask_predictions_masked_from:
  "mask_predictions (Some p) d = Inr ms \<Longrightarrow>
   list_all2 (\<lambda>(path, orig) (path', m). path' = path \<and> masked_from p orig m) d ms"
  unfolding mask_predictions_def
proof (induction d arbitrary: ms)
  case Nil
  then show ?case by simp
next
  case (Cons x d)
  then show ?case
    by (cases x) (auto simp: bind_Inr_iff dest: mask_keypoints_masked_from)
qed

lemma mask_keypoints_h_spec:
  assumes "r < next_free h" and "mask_keypoints_h pc h r = Inr (h1, k)"
  shows "k = next_free h \<and> next_free h1 = Suc (next_free h)
    \<and> (\<forall>a. a \<noteq> k \<longrightarrow> cells h1 a = cells h a)
    \<and> mask_keypoints pc (cells h r) = Inr (cells h1 k)"
proof (cases pc)
  case None
  then show ?thesis
    using assms by (auto simp: mask_keypoints_h_def new_array_def mask_keypoints_def)
next
  case (Some p)
  then show ?thesis
    using assms
    by (auto simp: mask_keypoints_h_def new_array_def mask_keypoints_def score_below_def
        bind_def split: if_splits)
qed

lemma deref_unchanged:
  "allocated h d \<Longrightarrow> (\<forall>a<next_free h. cells h' a = cells h a) \<Longrightarrow> deref h' d = deref h d"
  by (induction d) (auto simp: allocated_def deref_def)

lemma allocated_mono: "allocated h d \<Longrightarrow> next_free h \<le> next_free h' \<Longrightarrow> allocated h' d"
  by (induction d) (auto simp: allocated_def)

lemma deref_Cons: "deref h ((path, r) # d) = (path, cells h r) # deref h d"
  by (simp add: deref_def)

lemma mask_predictions_Cons:
  "mask_predictions pc ((path, a) # d) =
     bind (mask_keypoints pc a) (\<lambda>m. bind (mask_predictions pc d) (\<lambda>ms. Inr ((path, m) # ms)))"
  by (cases "mask_keypoints pc a") (simp_all add: mask_predictions_def)

lemma mask_predictions_h_spec:
  "allocated h pred \<Longrightarrow> mask_predictions_h pc h pred = Inr (h', masked) \<Longrightarrow>
     next_free h \<le> next_free h' \<and> (\<forall>a<next_free h. cells h' a = cells h a)
     \<and> allocated h' masked
     \<and> mask_predictions pc (deref h pred) = Inr (deref h' masked)"
proof (induction pred arbitrary: h h' masked)
  case Nil
  then show ?case by (simp add: allocated_def mask_predictions_def deref_def)
next
  case (Cons x pred)
  obtain path r where x: "x = (path, r)" by (cases x)
  from Cons.prems(1) have r: "r < next_free h" and al: "allocated h pred"
    by (auto simp: x allocated_def)
  from Cons.prems(2) obtain h1 k ms where
      st: "mask_keypoints_h pc h r = Inr (h1, k)"
      and rest: "mask_predictions_h pc h1 pred = Inr (h', ms)"
      and masked: "masked = (path, k) # ms"
    by (auto simp: x bind_Inr_iff)
  from mask_keypoints_h_spec [OF r st] have
      k: "k = next_free h" and n1: "next_free h1 = Suc (next_free h)"
      and same1: "\<forall>a. a \<noteq> k \<longrightarrow> cells h1 a = cells h a"
      and val: "mask_keypoints pc (cells h r) = Inr (cells h1 k)"
    by auto
  have al1: "allocated h1 pred"
    using allocated_mono [OF al] n1 by simp
  from Cons.IH [OF al1 rest] have
      le: "next_free h1 \<le> next_free h'"
      and same2: "\<forall>a<next_free h1. cells h' a = cells h1 a"
      and alm: "allocated h' ms"
      and vals: "mask_predictions pc (deref h1 pred) = Inr (deref h' ms)"
    by auto
  have d1: "deref h1 pred = deref h pred"
    using deref_unchanged [OF al, of h1] same1 k by simp
  have kk: "cells h' k = cells h1 k"
    using same2 k n1 by simp
  have "mask_predictions pc (deref h (x # pred)) = Inr (deref h' masked)"
    using vals val
    by (simp add: x masked deref_Cons mask_predictions_Cons d1 [symmetric] kk)
  moreover have "\<forall>a<next_free h. cells h' a = cells h a"
    using same1 same2 k n1 by simp
  moreover have "allocated h' masked"
    using alm le k n1 by (simp add: masked allocated_def)
  ultimately show ?case
    using le n1 by simp
qed

lemma mask_keypoints_h_returns:
  assumes "r < next_free h" and "3 \<le> n_columns (cells h r)"
  shows "\<exists>h1 k. mask_keypoints_h pc h r = Inr (h1, k)"
  using assms
  by (cases pc) (auto simp: mask_keypoints_h_def new_array_def score_below_def)

lemma scored_unchanged:
  "allocated h d \<Longrightarrow> scored h d \<Longrightarrow> (\<forall>a<next_free h. cells h' a = cells h a) \<Longrightarrow> scored h' d"
  by (induction d) (auto simp: allocated_def scored_def)

lemma mask_predictions_h_returns:
  "allocated h pred \<Longrightarrow> scored h pred \<Longrightarrow> \<exists>h' masked. mask_predictions_h pc h pred = Inr (h', masked)"
proof (induction pred arbitrary: h)
  case Nil
  then show ?case by simp
next
  case (Cons x pred)
  obtain path r where x: "x = (path, r)" by (cases x)
  from Cons.prems have r: "r < next_free h" "3 \<le> n_columns (cells h r)"
      and al: "allocated h pred" and sc: "scored h pred"
    by (auto simp: x allocated_def scored_def)
  from mask_keypoints_h_returns [OF r] obtain h1 k where
      st: "mask_keypoints_h pc h r = Inr (h1, k)" by blast
  from mask_keypoints_h_spec [OF r(1) st] have
      k: "k = next_free h" and n1: "next_free h1 = Suc (next_free h)"
      and same: "\<forall>a. a \<noteq> k \<longrightarrow> cells h1 a = cells h a"
    by auto
  have "allocated h1 pred"
    using allocated_mono [OF al, of h1] n1 by simp
  moreover have "scored h1 pred"
    using scored_unchanged [OF al sc, of h1] same k by simp
  ultimately obtain h' ms where "mask_predictions_h pc h1 pred = Inr (h', ms)"
    using Cons.IH by blast
  then show ?case
    by (simp add: x st)
qed

text \<open>
  Claim C6. When \<^verbatim>\<open>compute_oks\<close> is called with a cutoff on predictions that carry
  scores, the masking returns, and every array that existed before the call is
  unchanged, so the caller's predictions and the ground truth are: the masking works on
  new copies. The copy handed to the assembly construction has NaN in both coordinates
  exactly at the keypoints whose score is below the cutoff, and the original's
  coordinates at all the others.
\<close>

theorem compute_oks_masks_a_copy:
  assumes "allocated h pred" and "allocated h ground_truth" and "scored h pred"
  shows "\<exists>h' masked_pred. mask_predictions_h (Some pcutoff) h pred = Inr (h', masked_pred)
    \<and> compute_oks_h evaluate_assembly h pred ground_truth oks_sigma margin symmetric_kpts
          (Some pcutoff)
        = bind (call_evaluator (evaluate_assembly (build_assemblies (deref h' masked_pred))
                 (build_assemblies (deref h ground_truth)) oks_sigma margin symmetric_kpts))
            (\<lambda>oks. Inr (h', masked_pred, oks))
    \<and> (\<forall>r<next_free h. cells h' r = cells h r)
    \<and> deref h' pred = deref h pred \<and> deref h' ground_truth = deref h ground_truth
    \<and> list_all2 (\<lambda>(path, orig) (path', m). path' = path \<and> masked_from pcutoff orig m)
         (deref h pred) (deref h' masked_pred)
    \<and> compute_oks evaluate_assembly (deref h pred) (deref h ground_truth) oks_sigma margin
          symmetric_kpts (Some pcutoff)
        = call_evaluator (evaluate_assembly (build_assemblies (deref h' masked_pred))
            (build_assemblies (deref h ground_truth)) oks_sigma margin symmetric_kpts)"
proof -
  from mask_predictions_h_returns [OF assms(1,3)] obtain h' masked_pred where
      mp: "mask_predictions_h (Some pcutoff) h pred = Inr (h', masked_pred)"
    by blast
  from mask_predictions_h_spec [OF assms(1) mp] have
      same: "\<forall>a<next_free h. cells h' a = cells h a"
      and vals: "mask_predictions (Some pcutoff) (deref h pred) = Inr (deref h' masked_pred)"
    by auto
  have dp: "deref h' pred = deref h pred" and dg: "deref h' ground_truth = deref h ground_truth"
    using deref_unchanged [OF assms(1) same] deref_unchanged [OF assms(2) same] by auto
  have h: "compute_oks_h evaluate_assembly h pred ground_truth oks_sigma margin symmetric_kpts
          (Some pcutoff)
        = bind (call_evaluator (evaluate_assembly (build_assemblies (deref h' masked_pred))
                 (build_assemblies (deref h ground_truth)) oks_sigma margin symmetric_kpts))
            (\<lambda>oks. Inr (h', masked_pred, oks))"
    by (simp add: compute_oks_h_def mp dg)
  have v: "compute_oks evaluate_assembly (deref h pred) (deref h ground_truth) oks_sigma margin
          symmetric_kpts (Some pcutoff)
        = call_evaluator (evaluate_assembly (build_assemblies (deref h' masked_pred))
            (build_assemblies (deref h ground_truth)) oks_sigma margin symmetric_kpts)"
    by (simp add: compute_oks_def vals)
  show ?thesis
    by (intro exI [of _ h'] exI [of _ masked_pred] conjI)
      (rule mp h same dp dg v mask_predictions_masked_from [OF vals])+
qed

theorem compute_oks_masks_a_copy_witness:
  "\<exists>h'. compute_oks_h constant_evaluator example_heap [(''img'', 0)] [(''img'', 1)]
        (1 / 10) 0 None (Some (Fin (1 / 2))) = Inr (h', [(''img'', 2)], (Fin 1, Fin 1))
     \<and> deref h' [(''img'', 0)] = [(''img'', example_prediction)]
     \<and> deref h' [(''img'', 1)] = [(''img'', example_prediction)]
     \<and> map (\<lambda>i. map (\<lambda>k. (item (cells h' 2) i k 0, item (cells h' 2) i k 1)) [0..<2]) [0..<2]
          = [[(NaN, NaN), (NaN, NaN)], [(Fin 5, Fin 6), (NaN, NaN)]]"
proof -
  let ?h = "\<lparr>cells = (\<lambda>r. example_prediction)
      (2 := set_nan (\<lambda>i k. flt (item example_prediction i k 2) (Fin (1 / 2)))
              (xy_slice example_prediction)), next_free = 3\<rparr>"
  have al: "allocated example_heap [(''img'', 0)]" "allocated example_heap [(''img'', 1)]"
      "scored example_heap [(''img'', 0)]"
    by (simp_all add: allocated_def scored_def example_heap_def example_prediction_def np_array_def)
  have mp: "mask_predictions_h (Some (Fin (1 / 2))) example_heap [(''img'', 0)]
      = Inr (?h, [(''img'', 2)])"
    by (simp add: mask_keypoints_h_def new_array_def score_below_def
        example_heap_def example_prediction_def np_array_def numeral_2_eq_2 numeral_3_eq_3)
  from compute_oks_masks_a_copy [OF al, of "Fin (1 / 2)" constant_evaluator "1 / 10" 0 None]
  obtain h' m where
      mp': "mask_predictions_h (Some (Fin (1 / 2))) example_heap [(''img'', 0)] = Inr (h', m)"
      and eq': "compute_oks_h constant_evaluator example_heap [(''img'', 0)] [(''img'', 1)]
          (1 / 10) 0 None (Some (Fin (1 / 2)))
        = bind (call_evaluator (constant_evaluator (build_assemblies (deref h' m))
                 (build_assemblies (deref example_heap [(''img'', 1)])) (1 / 10) 0 None))
            (\<lambda>oks. Inr (h', m, oks))"
      and d': "deref h' [(''img'', 0)] = deref example_heap [(''img'', 0)]"
         "deref h' [(''img'', 1)] = deref example_heap [(''img'', 1)]"
    by (elim exE conjE) (rule that, assumption+)
  have hm: "h' = ?h" "m = [(''img'', 2)]"
    using mp mp' by simp_all
  have eq: "compute_oks_h constant_evaluator example_heap [(''img'', 0)] [(''img'', 1)]
        (1 / 10) 0 None (Some (Fin (1 / 2))) = Inr (?h, [(''img'', 2)], (Fin 1, Fin 1))"
    using eq' by (simp add: hm constant_evaluator_def call_evaluator_def)
  have d: "deref ?h [(''img'', 0)] = deref example_heap [(''img'', 0)]"
         "deref ?h [(''img'', 1)] = deref example_heap [(''img'', 1)]"
    using d' by (simp_all only: hm)
  have d0: "deref example_heap [(''img'', 0)] = [(''img'', example_prediction)]"
       "deref example_heap [(''img'', 1)] = [(''img'', example_prediction)]"
    by (simp_all add: deref_def example_heap_def)
  have v: "map (\<lambda>i. map (\<lambda>k. (item (cells ?h 2) i k 0, item (cells ?h 2) i k 1)) [0..<2]) [0..<2]
          = [[(NaN, NaN), (NaN, NaN)], [(Fin 5, Fin 6), (NaN, NaN)]]"
    by (simp add: set_nan_def xy_slice_def example_prediction_def np_array_def upt_2)
  show ?thesis
    using eq d d0 v by (intro exI [of _ ?h]) simp
qed

section \<open>Properties of the heatmap predictor\<close>

subsection \<open>The top-k extractor\<close>

lemma set_ranked: "set (ranked xs) = {(xs ! i, i) | i. i < length xs}"
  by (auto simp: ranked_def set_zip)

lemma distinct_ranked: "distinct (map snd (ranked xs))"
proof -
  have "distinct (zip xs [0..<length xs])"
    by (simp add: distinct_zipI2)
  then have "distinct (ranked xs)"
    by (simp add: ranked_def)
  moreover have "inj_on snd (set (ranked xs))"
    by (auto simp: set_ranked inj_on_def)
  ultimately show ?thesis
    by (simp add: distinct_map)
qed

lemma set_snd_ranked: "set (map snd (ranked xs)) = {0..<length xs}"
  by (auto simp: set_ranked image_def)

lemma length_ranked: "length (ranked xs) = length xs"
  by (simp add: ranked_def)

lemma value_ranked: "map (\<lambda>i. xs ! i) (map snd (ranked xs)) = map fst (ranked xs)"
  by (auto simp: set_ranked)

lemma sorted_ranked: "sorted_wrt (\<lambda>a b. b \<le> a) (map fst (ranked xs))"
proof -
  have "sorted (map (\<lambda>p. - fst p) (ranked xs))"
    unfolding ranked_def by (rule sorted_sort_key)
  then show ?thesis
    by (simp add: sorted_wrt_map)
qed

lemma sorted_values: "sorted_wrt (\<lambda>a b. xs ! b \<le> xs ! a) (map snd (ranked xs))"
proof -
  have "sorted_wrt (\<lambda>a b. b \<le> a) (map (\<lambda>i. xs ! i) (map snd (ranked xs)))"
    using sorted_ranked [of xs] by (simp only: value_ranked)
  then show ?thesis
    by (simp only: sorted_wrt_map)
qed

lemma topk_indices_ranked: "topk_indices xs k = take k (map snd (ranked xs))"
  by (simp add: topk_indices_def ranked_def)

lemma topk_length: "k \<le> length xs \<Longrightarrow> length (topk_indices xs k) = k"
  by (simp add: topk_indices_ranked length_ranked)

lemma topk_distinct: "distinct (topk_indices xs k)"
  by (simp add: topk_indices_ranked distinct_ranked)

lemma topk_in_range: "i \<in> set (topk_indices xs k) \<Longrightarrow> i < length xs"
  using set_snd_ranked [of xs] by (auto simp: topk_indices_ranked dest!: in_set_takeD)

lemma topk_sorted: "sorted_wrt (\<lambda>a b. xs ! b \<le> xs ! a) (topk_indices xs k)"
  unfolding topk_indices_ranked using sorted_values sorted_wrt_take by blast

lemma topk_largest:
  assumes "i < length xs" and "i \<notin> set (topk_indices xs k)" and "t \<in> set (topk_indices xs k)"
  shows "xs ! i \<le> xs ! t"
proof -
  let ?q = "map snd (ranked xs)"
  have "i \<in> set ?q"
    using assms(1) set_snd_ranked [of xs] by simp
  then have "i \<in> set (take k ?q @ drop k ?q)"
    by simp
  then have i: "i \<in> set (drop k ?q)"
    using assms(2) by (simp add: topk_indices_ranked del: append_take_drop_id)
  have "sorted_wrt (\<lambda>a b. xs ! b \<le> xs ! a) (take k ?q @ drop k ?q)"
    using sorted_values by simp
  then show ?thesis
    using i assms(3) unfolding sorted_wrt_append topk_indices_ranked by blast
qed

lemma length_heatmap_flat: "length (heatmap_flat hm b j) = dim2 hm * dim1 hm"
  by (simp add: heatmap_flat_def Let_def)

lemma nth_heatmap_flat:
  "i < dim2 hm * dim1 hm \<Longrightarrow>
     heatmap_flat hm b j ! i = elem hm b (i div dim2 hm) (i mod dim2 hm) j"
  by (simp add: heatmap_flat_def Let_def)

lemma flat_position:
  assumes "i < nx * (ny :: nat)"
  shows "i div nx < ny \<and> i mod nx < nx"
proof -
  have "0 < nx" using assms by (cases nx) auto
  moreover have "i div nx < ny"
    using assms by (simp add: less_mult_imp_div_less mult.commute)
  ultimately show ?thesis by simp
qed

lemma position_flat:
  assumes "x < (nx :: nat)" and "y < (ny :: nat)"
  shows "y * nx + x < nx * ny \<and> (y * nx + x) div nx = y \<and> (y * nx + x) mod nx = x"
proof -
  have "y * nx + x < (Suc y) * nx" using assms(1) by simp
  also have "\<dots> \<le> ny * nx" using assms(2) by (intro mult_le_mono1) simp
  finally show ?thesis using assms(1) by (simp add: mult.commute)
qed

lemma topk_positions:
  assumes "k \<le> dim2 hm * dim1 hm"
  shows "top_k_positions hm b j k
    (\<lambda>n. (topk_indices (heatmap_flat hm b j) k ! n div dim2 hm,
          topk_indices (heatmap_flat hm b j) k ! n mod dim2 hm))"
proof -
  let ?xs = "heatmap_flat hm b j"
  let ?is = "topk_indices ?xs k"
  let ?nx = "dim2 hm"
  have len: "length ?is = k"
    using assms by (simp add: topk_length length_heatmap_flat)
  have rng: "?is ! n < ?nx * dim1 hm" if "n < k" for n
    using topk_in_range [of "?is ! n" ?xs k] that len by (simp add: length_heatmap_flat)
  have val: "?xs ! (?is ! n) = elem hm b (?is ! n div ?nx) (?is ! n mod ?nx) j" if "n < k" for n
    using rng [OF that] by (simp add: nth_heatmap_flat)
  have grid: "?is ! n div ?nx < dim1 hm \<and> ?is ! n mod ?nx < ?nx" if "n < k" for n
    using flat_position [OF rng [OF that]] .
  have dist: "(?is ! n div ?nx, ?is ! n mod ?nx) \<noteq> (?is ! m div ?nx, ?is ! m mod ?nx)"
    if "n < k" "m < k" "n \<noteq> m" for n m
  proof
    assume "(?is ! n div ?nx, ?is ! n mod ?nx) = (?is ! m div ?nx, ?is ! m mod ?nx)"
    then have "?is ! n = ?is ! m"
      by (metis Pair_inject div_mult_mod_eq)
    then show False
      using that len topk_distinct [of ?xs k] by (simp add: nth_eq_iff_index_eq)
  qed
  have ord: "elem hm b (?is ! m div ?nx) (?is ! m mod ?nx) j
        \<le> elem hm b (?is ! n div ?nx) (?is ! n mod ?nx) j"
    if "n < k" "m < k" "n \<le> m" for n m
  proof (cases "n = m")
    case True
    then show ?thesis by simp
  next
    case False
    then have "n < m" using that(3) by simp
    then have "?xs ! (?is ! m) \<le> ?xs ! (?is ! n)"
      using topk_sorted [of ?xs k] that(2) len by (simp add: sorted_wrt_iff_nth_less)
    then show ?thesis
      using val [OF that(1)] val [OF that(2)] by simp
  qed
  have big: "elem hm b y x j \<le> elem hm b (?is ! n div ?nx) (?is ! n mod ?nx) j"
    if "y < dim1 hm" "x < ?nx" "n < k"
      and out: "\<forall>m<k. (?is ! m div ?nx, ?is ! m mod ?nx) \<noteq> (y, x)" for y x n
  proof -
    let ?i = "y * ?nx + x"
    have i: "?i < ?nx * dim1 hm" "?i div ?nx = y" "?i mod ?nx = x"
      using position_flat [OF that(2) that(1)] by auto
    have "?i \<notin> set ?is"
    proof
      assume "?i \<in> set ?is"
      then obtain m where "m < k" "?is ! m = ?i"
        using len by (auto simp: in_set_conv_nth)
      then show False using out i by auto
    qed
    moreover have "?is ! n \<in> set ?is"
      using that(3) len by simp
    ultimately have "?xs ! ?i \<le> ?xs ! (?is ! n)"
      using topk_largest [of ?i ?xs k "?is ! n"] i(1) by (simp add: length_heatmap_flat)
    then show ?thesis
      using val [OF that(3)] i by (simp add: nth_heatmap_flat)
  qed
  show ?thesis
    unfolding top_k_positions_def fst_conv snd_conv
    using grid dist ord big by blast
qed

lemma get_top_values_Inr:
  assumes "0 \<le> n_top" and "n_top \<le> int (dim1 heatmap * dim2 heatmap)"
  shows "\<exists>y x. get_top_values heatmap n_top = Inr (y, x)
     \<and> (len0 y, len1 y, len2 y) = (dim0 heatmap, nat n_top, dim3 heatmap)
     \<and> (len0 x, len1 x, len2 x) = (dim0 heatmap, nat n_top, dim3 heatmap)
     \<and> (\<forall>b n j. elem3 y b n j
             = topk_indices (heatmap_flat heatmap b j) (nat n_top) ! n div dim2 heatmap
           \<and> elem3 x b n j
             = topk_indices (heatmap_flat heatmap b j) (nat n_top) ! n mod dim2 heatmap)
     \<and> (\<forall>b j. top_k_positions heatmap b j (nat n_top) (\<lambda>n. (elem3 y b n j, elem3 x b n j)))"
proof -
  have k: "nat n_top \<le> dim2 heatmap * dim1 heatmap"
    using assms by (simp add: mult.commute nat_le_iff)
  have ok: "\<not> (n_top < 0 \<or> int (dim2 heatmap * dim1 heatmap) < n_top)"
    using assms by (simp add: mult.commute)
  show ?thesis
    using topk_positions [OF k] ok
    by (simp add: get_top_values_def heatmap_top_def Let_def bind_def)
qed

text \<open>
  Claim C2. For a confidence map of shape \<open>(B, H, W, J)\<close> and \<open>0 \<le> n_top \<le> H * W\<close>,
  \<^verbatim>\<open>get_top_values\<close> returns two index tensors of shape \<open>(B, n_top, J)\<close>. For every
  batch item and joint the positions depend on the flattened values of that slice
  only; they are \<open>y = flat div W\<close> and \<open>x = flat mod W\<close> of the flat top-k positions,
  lie inside the grid, are pairwise different, come by non-increasing confidence, and
  no position left out has a larger confidence than one selected.
\<close>

theorem get_top_values_topk:
  assumes "0 \<le> n_top" and "n_top \<le> int (dim1 heatmap * dim2 heatmap)"
  shows "\<exists>y x. get_top_values heatmap n_top = Inr (y, x)
     \<and> (len0 y, len1 y, len2 y) = (dim0 heatmap, nat n_top, dim3 heatmap)
     \<and> (len0 x, len1 x, len2 x) = (dim0 heatmap, nat n_top, dim3 heatmap)
     \<and> (\<forall>b n j. elem3 y b n j
             = topk_indices (heatmap_flat heatmap b j) (nat n_top) ! n div dim2 heatmap
           \<and> elem3 x b n j
             = topk_indices (heatmap_flat heatmap b j) (nat n_top) ! n mod dim2 heatmap)
     \<and> (\<forall>b j. top_k_positions heatmap b j (nat n_top) (\<lambda>n. (elem3 y b n j, elem3 x b n j)))"
  using assms by (rule get_top_values_Inr)

lemma topk_example: "topk_indices (heatmap_flat example_heatmap 0 0) 2 = [2, Suc 0]"
  by (simp add: topk_indices_def heatmap_flat_def example_heatmap_def upt_rec)

theorem get_top_values_topk_witness:
  "\<exists>y x. get_top_values example_heatmap 2 = Inr (y, x)
     \<and> map (\<lambda>n. (elem3 y 0 n 0, elem3 x 0 n 0)) [0..<2] = [(1, 0), (0, 1)]"
proof -
  have "(0::int) \<le> 2" "2 \<le> int (dim1 example_heatmap * dim2 example_heatmap)"
    by (simp_all add: example_heatmap_def)
  from get_top_values_topk [OF this] obtain y x where
      "get_top_values example_heatmap 2 = Inr (y, x)"
      "\<forall>b n j. elem3 y b n j
             = topk_indices (heatmap_flat example_heatmap b j) (nat 2) ! n div dim2 example_heatmap
           \<and> elem3 x b n j
             = topk_indices (heatmap_flat example_heatmap b j) (nat 2) ! n mod dim2 example_heatmap"
    by (elim exE conjE) (rule that, assumption+)
  moreover have "dim2 example_heatmap = 2"
    by (simp add: example_heatmap_def)
  ultimately show ?thesis
    by (simp add: topk_example upt_2)
qed

subsection \<open>The pose prediction\<close>

lemma list_ex_upt: "list_ex P [0..<n] = (\<exists>i<n. P i)"
  by (auto simp: list_ex_iff)

lemma fill_dz_None:
  "fill_dz hm None y x k bs nj
     = Inr (\<lambda>b n j c. if c = 2 then elem hm b (elem3 y b n j) (elem3 x b n j) j else 0)"
  by (simp add: fill_dz_def)

lemma fill_dz_Some_Inr:
  "fill_dz hm (Some l) y x k bs nj = Inr dz \<Longrightarrow>
   dz = (\<lambda>b n j c. if c = 2 then elem hm b (elem3 y b n j) (elem3 x b n j) j
          else if c = 0 then fst (elem l b (elem3 y b n j) (elem3 x b n j) j)
          else snd (elem l b (elem3 y b n j) (elem3 x b n j) j))"
  by (simp add: fill_dz_def split: if_splits)

lemma fill_dz_values:
  assumes "fill_dz hm locref y x k bs nj = Inr dz"
  shows "dz b n j 0 = fst (offset locref b (elem3 y b n j) (elem3 x b n j) j)
    \<and> dz b n j 1 = snd (offset locref b (elem3 y b n j) (elem3 x b n j) j)
    \<and> dz b n j 2 = elem hm b (elem3 y b n j) (elem3 x b n j) j"
proof (cases locref)
  case None
  then show ?thesis using assms by (auto simp: fill_dz_None offset_def)
next
  case (Some l)
  then show ?thesis using fill_dz_Some_Inr [of hm l y x k bs nj dz] assms
    by (simp add: offset_def)
qed

lemma fill_dz_returns:
  assumes "covers locref hm"
    and "\<forall>b<dim0 hm. \<forall>n<k. \<forall>j<dim3 hm. elem3 y b n j < dim1 hm \<and> elem3 x b n j < dim2 hm"
  shows "\<exists>dz. fill_dz hm locref y x k (dim0 hm) (dim3 hm) = Inr dz"
proof (cases locref)
  case None
  then show ?thesis by (simp add: fill_dz_None)
next
  case (Some l)
  have "inside l b (elem3 y b n j) (elem3 x b n j) j"
    if "b < dim0 hm" "n < k" "j < dim3 hm" for b n j
    using assms that Some by (fastforce simp: covers_def inside_def)
  then show ?thesis
    using Some by (auto simp: fill_dz_def list_ex_upt)
qed

lemma get_pose_prediction_Inr:
  assumes "get_pose_prediction hm locref (sy, sx) n = Inr pose"
  shows "\<exists>y x. get_top_values hm n = Inr (y, x)
    \<and> shape4 pose = (dim0 hm, nat n, dim3 hm, 3)
    \<and> (\<forall>b m j.
          elem pose b m j 0 = real (elem3 x b m j) * sx + 0.5 * sx
              + fst (offset locref b (elem3 y b m j) (elem3 x b m j) j)
        \<and> elem pose b m j 1 = real (elem3 y b m j) * sy + 0.5 * sy
              + snd (offset locref b (elem3 y b m j) (elem3 x b m j) j)
        \<and> elem pose b m j 2 = elem hm b (elem3 y b m j) (elem3 x b m j) j)"
proof (cases "get_top_values hm n")
  case (Inl e)
  then show ?thesis using assms by (simp add: get_pose_prediction_def)
next
  case (Inr yx)
  obtain y x where yx: "yx = (y, x)" by (cases yx)
  show ?thesis
  proof (cases "fill_dz hm locref y x (nat n) (dim0 hm) (dim3 hm)")
    case (Inl e)
    then show ?thesis using assms Inr yx by (simp add: get_pose_prediction_def Let_def)
  next
    case dz: (Inr dz)
    have "shape4 pose = (dim0 hm, nat n, dim3 hm, 3)"
      and "elem pose b m j 0 = real (elem3 x b m j) * sx + 0.5 * sx + dz b m j 0"
      and "elem pose b m j 1 = real (elem3 y b m j) * sy + 0.5 * sy + dz b m j 1"
      and "elem pose b m j 2 = dz b m j 2" for b m j
      using assms Inr yx dz by (auto simp: get_pose_prediction_def Let_def shape4_def)
    then show ?thesis
      using Inr yx fill_dz_values [OF dz] by simp
  qed
qed

lemma get_pose_prediction_returns:
  assumes "0 \<le> n" and "n \<le> int (dim1 hm * dim2 hm)" and "covers locref hm"
  shows "\<exists>pose. get_pose_prediction hm locref sf n = Inr pose"
proof -
  from get_top_values_Inr [OF assms(1,2)] obtain y x where
      top: "get_top_values hm n = Inr (y, x)"
      and pos: "\<forall>b j. top_k_positions hm b j (nat n) (\<lambda>m. (elem3 y b m j, elem3 x b m j))"
    by blast
  have "\<forall>b<dim0 hm. \<forall>m<nat n. \<forall>j<dim3 hm. elem3 y b m j < dim1 hm \<and> elem3 x b m j < dim2 hm"
    using pos by (simp add: top_k_positions_def)
  from fill_dz_returns [OF assms(3) this] obtain dz where
      "fill_dz hm locref y x (nat n) (dim0 hm) (dim3 hm) = Inr dz" by blast
  then show ?thesis
    using top by (simp add: get_pose_prediction_def Let_def)
qed

lemma shape4_input_heatmap:
  "shape4 (input_heatmap self hm) = (dim0 hm, dim2 hm, dim3 hm, dim1 hm)"
  by (simp add: input_heatmap_def permute_0231_def shape4_def)

lemma elem_input_heatmap:
  "elem (input_heatmap self hm) b y x j
     = (if apply_sigmoid self then sigmoid (elem hm b j y x) else elem hm b j y x)"
  by (simp add: input_heatmap_def permute_0231_def)

lemma forward_eq:
  "forward self stride outputs n =
     bind (get_output outputs ''heatmap'') (\<lambda>hm.
       bind (if location_refinement self
             then bind (get_output outputs ''locref'') (\<lambda>lr.
                  bind (reshape_locref (permute_0231 lr) (dim0 hm) (dim2 hm) (dim3 hm) (dim1 hm))
                    (\<lambda>l. Inr (Some (scale_locref (locref_std self) l))))
             else Inr None) (\<lambda>locrefs.
         bind (get_pose_prediction (input_heatmap self hm) locrefs (stride, stride) n)
           (\<lambda>poses. Inr [(''poses'', output_poses self poses)])))"
proof -
  have d: "dim0 (input_heatmap self hm) = dim0 hm" "dim1 (input_heatmap self hm) = dim2 hm"
    "dim2 (input_heatmap self hm) = dim3 hm" "dim3 (input_heatmap self hm) = dim1 hm" for hm
    using shape4_input_heatmap [of self hm] by (simp_all add: shape4_def)
  show ?thesis
    unfolding forward_def Let_def
      input_heatmap_def [symmetric] scale_locref_def [symmetric] output_poses_def [symmetric]
    by (simp only: d)
qed

lemma reshape_locref_channel_first:
  assumes "shape4 lr = (b, 2 * j, h, w)"
  shows "\<exists>l. reshape_locref (permute_0231 lr) b h w j = Inr l \<and> shape4 l = (b, h, w, j)"
  using assms by (simp add: reshape_locref_def permute_0231_def shape4_def)

lemma elem_output_poses:
  "elem (output_poses self p) b n j 2
     = (if clip_scores self then clip (elem p b n j 2) else elem p b n j 2)"
  by (simp add: output_poses_def)

lemma shape4_output_poses: "shape4 (output_poses self p) = shape4 p"
  by (simp add: output_poses_def shape4_def)

lemma forward_returns:
  assumes "outputs ''heatmap'' = Some hm"
    and "location_refinement self \<longrightarrow>
           (\<exists>lr. outputs ''locref'' = Some lr \<and> shape4 lr = (dim0 hm, 2 * dim1 hm, dim2 hm, dim3 hm))"
    and "0 \<le> num_outputs" and "num_outputs \<le> int (dim2 hm * dim3 hm)"
  shows "\<exists>poses. forward self stride outputs num_outputs = Inr [(''poses'', poses)]
     \<and> shape4 poses = (dim0 hm, nat num_outputs, dim1 hm, 3)
     \<and> (\<forall>b j. \<forall>n<nat num_outputs. \<exists>y<dim2 hm. \<exists>x<dim3 hm.
           elem poses b n j 2 = output_score self (elem hm b j y x))"
proof -
  let ?ih = "input_heatmap self hm"
  have dims: "dim0 ?ih = dim0 hm" "dim1 ?ih = dim2 hm" "dim2 ?ih = dim3 hm" "dim3 ?ih = dim1 hm"
    using shape4_input_heatmap [of self hm] by (simp_all add: shape4_def)
  obtain locrefs where
      lr: "(if location_refinement self
             then bind (get_output outputs ''locref'') (\<lambda>lr.
                  bind (reshape_locref (permute_0231 lr) (dim0 hm) (dim2 hm) (dim3 hm) (dim1 hm))
                    (\<lambda>l. Inr (Some (scale_locref (locref_std self) l))))
             else Inr None) = Inr locrefs"
      and cov: "covers locrefs ?ih"
  proof (cases "location_refinement self")
    case False
    show ?thesis
      by (rule that [of None]) (simp_all add: False covers_def)
  next
    case True
    then obtain t where t: "outputs ''locref'' = Some t"
        "shape4 t = (dim0 hm, 2 * dim1 hm, dim2 hm, dim3 hm)"
      using assms(2) by blast
    from reshape_locref_channel_first [OF t(2)] obtain l where
        l: "reshape_locref (permute_0231 t) (dim0 hm) (dim2 hm) (dim3 hm) (dim1 hm) = Inr l"
        "shape4 l = (dim0 hm, dim2 hm, dim3 hm, dim1 hm)"
      by blast
    show ?thesis
    proof (rule that [of "Some (scale_locref (locref_std self) l)"])
      show "(if location_refinement self
             then bind (get_output outputs ''locref'') (\<lambda>lr.
                  bind (reshape_locref (permute_0231 lr) (dim0 hm) (dim2 hm) (dim3 hm) (dim1 hm))
                    (\<lambda>l. Inr (Some (scale_locref (locref_std self) l))))
             else Inr None) = Inr (Some (scale_locref (locref_std self) l))"
        by (simp add: True get_output_def t(1) l(1))
      show "covers (Some (scale_locref (locref_std self) l)) ?ih"
        using l(2) by (simp add: covers_def scale_locref_def dims shape4_def)
    qed
  qed
  have n: "num_outputs \<le> int (dim1 ?ih * dim2 ?ih)"
    using assms(4) by (simp add: dims)
  obtain pose where pose:
      "get_pose_prediction ?ih locrefs (stride, stride) num_outputs = Inr pose"
    using get_pose_prediction_returns [OF assms(3) n cov] by blast
  from get_pose_prediction_Inr [OF pose] obtain y x where
      top: "get_top_values ?ih num_outputs = Inr (y, x)"
      and sh: "shape4 pose = (dim0 ?ih, nat num_outputs, dim3 ?ih, 3)"
      and sc: "\<forall>b m j. elem pose b m j 2 = elem ?ih b (elem3 y b m j) (elem3 x b m j) j"
    by (elim exE conjE) (rule that, assumption+, blast)
  from get_top_values_Inr [OF assms(3) n] top have
      pos: "\<forall>b j. top_k_positions ?ih b j (nat num_outputs) (\<lambda>m. (elem3 y b m j, elem3 x b m j))"
    by auto
  have fw: "forward self stride outputs num_outputs = Inr [(''poses'', output_poses self pose)]"
    by (simp add: forward_eq get_output_def assms(1) lr pose)
  have score: "\<exists>yy<dim2 hm. \<exists>xx<dim3 hm.
      elem (output_poses self pose) b m j 2 = output_score self (elem hm b j yy xx)"
    if "m < nat num_outputs" for b m j
  proof -
    have "elem3 y b m j < dim2 hm \<and> elem3 x b m j < dim3 hm"
      using pos that by (auto simp: top_k_positions_def dims)
    moreover have "elem (output_poses self pose) b m j 2
        = output_score self (elem hm b j (elem3 y b m j) (elem3 x b m j))"
      using sc by (simp add: elem_output_poses elem_input_heatmap output_score_def)
    ultimately show ?thesis by blast
  qed
  show ?thesis
    using fw sh score by (simp add: shape4_output_poses dims)
qed

lemma refined_values:
  assumes "refined_outputs ''heatmap'' = Some hm" and "refined_outputs ''locref'' = Some lr"
    and "reshape_locref (permute_0231 lr) (dim0 hm) (dim2 hm) (dim3 hm) (dim1 hm) = Inr l"
    and "get_pose_prediction (input_heatmap refining_predictor hm)
            (Some (scale_locref (72801 / 10000) l)) (8, 8) 2 = Inr p"
  shows "elem (output_poses refining_predictor p) 0 0 0 0 = 112801 / 10000
    \<and> elem (output_poses refining_predictor p) 0 0 0 (Suc 0) = 265602 / 10000
    \<and> elem (output_poses refining_predictor p) 0 0 0 2 = 9 / 10"
proof -
  let ?ih = "input_heatmap refining_predictor hm"
  have hm: "hm = \<lparr>dim0 = 1, dim1 = 1, dim2 = 2, dim3 = 2,
      elem = (\<lambda>b c y x. [[1 / 10, 7 / 10], [9 / 10, 3 / 10 :: real]] ! y ! x)\<rparr>"
    using assms(1) by (simp add: refined_outputs_def)
  have lr: "lr = \<lparr>dim0 = 1, dim1 = 2, dim2 = 2, dim3 = 2,
                     elem = (\<lambda>b c y x. if c = 0 then 1 else 2 :: real)\<rparr>"
    using assms(2) by (simp add: refined_outputs_def)
  have np: "\<not> apply_sigmoid refining_predictor" "\<not> clip_scores refining_predictor"
    by (simp_all add: refining_predictor_def HeatmapPredictor_def)
  have dh: "dim0 hm = 1" "dim1 hm = 1" "dim2 hm = 2" "dim3 hm = 2"
    and eh: "elem hm b c yy xx = [[1 / 10, 7 / 10], [9 / 10, 3 / 10]] ! yy ! xx" for b c yy xx
    by (simp_all add: hm)
  have d: "dim1 ?ih = 2" "dim2 ?ih = 2"
    using shape4_input_heatmap [of refining_predictor hm] by (simp_all add: shape4_def dh)
  have u4: "[0..<4] = [0, Suc 0, 2, 3]"
    by (simp add: upt_rec)
  have flat: "heatmap_flat ?ih 0 0 = [1 / 10, 7 / 10, 9 / 10, 3 / 10]"
    by (simp add: heatmap_flat_def Let_def d u4 elem_input_heatmap np eh)
  have top: "topk_indices (heatmap_flat ?ih 0 0) 2 = [2, Suc 0]"
    unfolding flat by (simp add: topk_indices_def upt_rec)
  have le: "(0::int) \<le> 2" "2 \<le> int (dim1 ?ih * dim2 ?ih)"
    by (simp_all add: d)
  from get_pose_prediction_Inr [OF assms(4)] obtain y x where
      t: "get_top_values ?ih 2 = Inr (y, x)"
      and v: "\<forall>b n j.
          elem p b n j 0 = real (elem3 x b n j) * 8 + 0.5 * 8
              + fst (offset (Some (scale_locref (72801 / 10000) l)) b (elem3 y b n j) (elem3 x b n j) j)
        \<and> elem p b n j 1 = real (elem3 y b n j) * 8 + 0.5 * 8
              + snd (offset (Some (scale_locref (72801 / 10000) l)) b (elem3 y b n j) (elem3 x b n j) j)
        \<and> elem p b n j 2 = elem ?ih b (elem3 y b n j) (elem3 x b n j) j"
    by (elim exE conjE) (rule that, assumption+)
  from get_top_values_Inr [OF le] t have
      yx: "elem3 y 0 0 0 = Suc 0" "elem3 x 0 0 0 = 0"
    by (auto simp: top d)
  have l: "elem l 0 (Suc 0) 0 0 = (1, 2)"
    using assms(3)
    by (auto simp: reshape_locref_def permute_0231_def flat_elem_def dh lr split: if_splits)
  have o: "offset (Some (scale_locref (72801 / 10000) l)) 0 (Suc 0) 0 0
      = (72801 / 10000, 2 * 72801 / 10000)"
    by (simp add: offset_def scale_locref_def l)
  have e: "elem ?ih 0 (Suc 0) 0 0 = 9 / 10"
    by (simp add: elem_input_heatmap np eh)
  have a: "elem p 0 0 0 0 = 112801 / 10000" "elem p 0 0 0 (Suc 0) = 265602 / 10000"
      "elem p 0 0 0 2 = 9 / 10"
    using v [rule_format, of 0 0 0] by (simp_all add: yx o e)
  show ?thesis
    by (simp add: output_poses_def np a)
qed

text \<open>
  Claim C1. For a heatmap, a location refinement field that covers it or none, scale
  factors and a candidate count within the grid, \<^verbatim>\<open>get_pose_prediction\<close> returns a pose
  tensor whose every candidate has \<open>x = grid_x * strideX + 0.5 * strideX + offset_x\<close>,
  \<open>y = grid_y * strideY + 0.5 * strideY + offset_y\<close> and, at position 2, the heatmap
  value at the candidate's grid index; the grid index is the one \<^verbatim>\<open>get_top_values\<close>
  gives, the offset the field's pair there, or zero without a field. In \<^verbatim>\<open>forward\<close>,
  with location refinement, the field handed over is the reshaped model output
  multiplied by \<open>locref_std\<close>, which is 7.2801 unless the constructor is given another
  value.
\<close>

theorem get_pose_prediction_coordinates:
  assumes "0 \<le> num_outputs" and "num_outputs \<le> int (dim1 heatmap * dim2 heatmap)"
    and "covers locref heatmap"
  shows "\<exists>pose y x. get_pose_prediction heatmap locref (sy, sx) num_outputs = Inr pose
     \<and> get_top_values heatmap num_outputs = Inr (y, x)
     \<and> (\<forall>b n j.
          elem pose b n j 0 = real (elem3 x b n j) * sx + 0.5 * sx
              + fst (offset locref b (elem3 y b n j) (elem3 x b n j) j)
        \<and> elem pose b n j 1 = real (elem3 y b n j) * sy + 0.5 * sy
              + snd (offset locref b (elem3 y b n j) (elem3 x b n j) j)
        \<and> elem pose b n j 2 = elem heatmap b (elem3 y b n j) (elem3 x b n j) j)
     \<and> (\<forall>self stride outputs res.
          forward self stride outputs num_outputs = Inr res \<and> location_refinement self \<longrightarrow>
          (\<exists>hm lr l p. outputs ''heatmap'' = Some hm \<and> outputs ''locref'' = Some lr
             \<and> reshape_locref (permute_0231 lr) (dim0 hm) (dim2 hm) (dim3 hm) (dim1 hm) = Inr l
             \<and> get_pose_prediction (input_heatmap self hm)
                  (Some (scale_locref (locref_std self) l)) (stride, stride) num_outputs = Inr p
             \<and> res = [(''poses'', output_poses self p)]))
     \<and> (\<forall>s l b y x j. elem (scale_locref s l) b y x j
                         = (fst (elem l b y x j) * s, snd (elem l b y x j) * s))
     \<and> (\<forall>a c r. locref_std (HeatmapPredictor a c r None) = 72801 / 10000)
     \<and> (\<forall>a c r s. locref_std (HeatmapPredictor a c r (Some s)) = s)"
proof -
  obtain pose where pose: "get_pose_prediction heatmap locref (sy, sx) num_outputs = Inr pose"
    using get_pose_prediction_returns [OF assms] by blast
  have fw: "\<exists>hm lr l p. outputs ''heatmap'' = Some hm \<and> outputs ''locref'' = Some lr
             \<and> reshape_locref (permute_0231 lr) (dim0 hm) (dim2 hm) (dim3 hm) (dim1 hm) = Inr l
             \<and> get_pose_prediction (input_heatmap self hm)
                  (Some (scale_locref (locref_std self) l)) (stride, stride) num_outputs = Inr p
             \<and> res = [(''poses'', output_poses self p)]"
    if "forward self stride outputs num_outputs = Inr res" and "location_refinement self"
    for self stride outputs res
    using that
    by (auto simp: forward_eq bind_Inr_iff get_output_def split: option.splits)
  have sc: "elem (scale_locref s l) b y x j = (fst (elem l b y x j) * s, snd (elem l b y x j) * s)"
    for s l b y x j
    by (simp add: scale_locref_def)
  have std: "locref_std (HeatmapPredictor a c r None) = 72801 / 10000"
    "locref_std (HeatmapPredictor a c r (Some s)) = s" for a c r s
    by (simp_all add: HeatmapPredictor_def)
  show ?thesis
    using pose get_pose_prediction_Inr [OF pose] fw sc std by blast
qed

theorem get_pose_prediction_coordinates_witness:
  "(\<exists>pose. get_pose_prediction example_heatmap (Some example_locref) (8, 8) 2 = Inr pose
      \<and> map (\<lambda>n. (elem pose 0 n 0 0, elem pose 0 n 0 1, elem pose 0 n 0 2)) [0..<2]
          = [(5, 14, 9 / 10), (13, 6, 7 / 10)])
   \<and> (\<exists>poses. forward refining_predictor 8 refined_outputs 2 = Inr [(''poses'', poses)]
      \<and> (elem poses 0 0 0 0, elem poses 0 0 0 1, elem poses 0 0 0 2)
          = (112801 / 10000, 265602 / 10000, 9 / 10))"
proof -
  have h: "(0::int) \<le> 2" "2 \<le> int (dim1 example_heatmap * dim2 example_heatmap)"
    "covers (Some example_locref) example_heatmap"
    by (simp_all add: example_heatmap_def example_locref_def covers_def)
  from get_pose_prediction_coordinates [OF h, of 8 8] obtain pose y x where
      p: "get_pose_prediction example_heatmap (Some example_locref) (8, 8) 2 = Inr pose"
      and t: "get_top_values example_heatmap 2 = Inr (y, x)"
      and v: "\<forall>b n j.
          elem pose b n j 0 = real (elem3 x b n j) * 8 + 0.5 * 8
              + fst (offset (Some example_locref) b (elem3 y b n j) (elem3 x b n j) j)
        \<and> elem pose b n j 1 = real (elem3 y b n j) * 8 + 0.5 * 8
              + snd (offset (Some example_locref) b (elem3 y b n j) (elem3 x b n j) j)
        \<and> elem pose b n j 2 = elem example_heatmap b (elem3 y b n j) (elem3 x b n j) j"
    by (elim exE conjE) (rule that, assumption+)
  have d2: "dim2 example_heatmap = 2"
    by (simp add: example_heatmap_def)
  from get_top_values_Inr [OF h(1,2)] t have
      yx: "elem3 y 0 n 0 = [2, Suc 0] ! n div 2" "elem3 x 0 n 0 = [2, Suc 0] ! n mod 2" for n
    by (auto simp: topk_example d2)
  have y0: "elem3 y 0 0 0 = Suc 0" "elem3 x 0 0 0 = 0" "elem3 y 0 (Suc 0) 0 = 0"
      "elem3 x 0 (Suc 0) 0 = Suc 0"
    by (simp_all add: yx)
  have o: "offset (Some example_locref) b yy xx j = (1, 2)" for b yy xx j
    by (simp add: offset_def example_locref_def)
  have e: "elem example_heatmap 0 (Suc 0) 0 0 = 9 / 10"
      "elem example_heatmap 0 0 (Suc 0) 0 = 7 / 10"
    by (simp_all add: example_heatmap_def)
  have a: "elem pose 0 0 0 0 = 5" "elem pose 0 0 0 (Suc 0) = 14" "elem pose 0 0 0 2 = 9 / 10"
    using v [rule_format, of 0 0 0] by (simp_all add: y0 o e)
  have b: "elem pose 0 (Suc 0) 0 0 = 13" "elem pose 0 (Suc 0) 0 (Suc 0) = 6"
      "elem pose 0 (Suc 0) 0 2 = 7 / 10"
    using v [rule_format, of 0 "Suc 0" 0] by (simp_all add: y0 o e)
  have m: "map (\<lambda>n. (elem pose 0 n 0 0, elem pose 0 n 0 1, elem pose 0 n 0 2)) [0..<2]
         = [(5, 14, 9 / 10), (13, 6, 7 / 10)]"
    by (simp add: upt_2 a b)
  have part1: "\<exists>pose. get_pose_prediction example_heatmap (Some example_locref) (8, 8) 2 = Inr pose
      \<and> map (\<lambda>n. (elem pose 0 n 0 0, elem pose 0 n 0 1, elem pose 0 n 0 2)) [0..<2]
          = [(5, 14, 9 / 10), (13, 6, 7 / 10)]"
    by (intro exI [of _ pose] conjI) (rule p, rule m)

  let ?hm = "\<lparr>dim0 = 1, dim1 = 1, dim2 = 2, dim3 = 2,
      elem = (\<lambda>b c y x. [[1 / 10, 7 / 10], [9 / 10, 3 / 10 :: real]] ! y ! x)\<rparr>"
  have lrf: "location_refinement refining_predictor"
    and std: "locref_std refining_predictor = 72801 / 10000"
    by (simp_all add: refining_predictor_def HeatmapPredictor_def)
  have "refined_outputs ''heatmap'' = Some ?hm"
    "location_refinement refining_predictor \<longrightarrow>
       (\<exists>lr. refined_outputs ''locref'' = Some lr
          \<and> shape4 lr = (dim0 ?hm, 2 * dim1 ?hm, dim2 ?hm, dim3 ?hm))"
    "(0::int) \<le> 2" "2 \<le> int (dim2 ?hm * dim3 ?hm)"
    by (simp_all add: refined_outputs_def shape4_def)
  from forward_returns [OF this, of 8] obtain poses where
      fw: "forward refining_predictor 8 refined_outputs 2 = Inr [(''poses'', poses)]"
    by (elim exE conjE) (rule that, assumption+)
  from get_pose_prediction_coordinates [OF h, of 8 8] have
    "\<forall>self stride outputs res.
          forward self stride outputs 2 = Inr res \<and> location_refinement self \<longrightarrow>
          (\<exists>hm lr l p. outputs ''heatmap'' = Some hm \<and> outputs ''locref'' = Some lr
             \<and> reshape_locref (permute_0231 lr) (dim0 hm) (dim2 hm) (dim3 hm) (dim1 hm) = Inr l
             \<and> get_pose_prediction (input_heatmap self hm)
                  (Some (scale_locref (locref_std self) l)) (stride, stride) 2 = Inr p
             \<and> res = [(''poses'', output_poses self p)])"
    by (elim exE conjE)
  from this [rule_format, of refining_predictor 8 refined_outputs "[(''poses'', poses)]"] fw lrf
  obtain hm lr l q where
      "refined_outputs ''heatmap'' = Some hm" "refined_outputs ''locref'' = Some lr"
      "reshape_locref (permute_0231 lr) (dim0 hm) (dim2 hm) (dim3 hm) (dim1 hm) = Inr l"
      "get_pose_prediction (input_heatmap refining_predictor hm)
         (Some (scale_locref (72801 / 10000) l)) (8, 8) 2 = Inr q"
      and res: "poses = output_poses refining_predictor q"
    by (auto simp: std)
  from refined_values [OF this(1-4)] have part2:
    "\<exists>poses. forward refining_predictor 8 refined_outputs 2 = Inr [(''poses'', poses)]
      \<and> (elem poses 0 0 0 0, elem poses 0 0 0 1, elem poses 0 0 0 2)
          = (112801 / 10000, 265602 / 10000, 9 / 10)"
    using fw by (intro exI [of _ poses]) (simp add: res)
  show ?thesis
    by (intro conjI) (rule part1, rule part2)
qed

subsection \<open>The forward pass\<close>




section \<open>The score dictionary of the entry point\<close>

text \<open>
  What \<^verbatim>\<open>get_scores\<close> returns once the image-count guard is passed: the rows it hands
  to \<^verbatim>\<open>compute_rmse\<close>, when that call and the two calls of \<^verbatim>\<open>compute_oks\<close> return,
  and the dictionary built from their results.
\<close>

lemma collect_getitem_present:
  "distinct (map fst d) \<Longrightarrow> set xs \<subseteq> set d \<Longrightarrow>
     collect (getitem d) (map fst xs) = Inr (map snd xs)"
proof (induction xs)
  case Nil
  then show ?case by simp
next
  case (Cons x xs)
  obtain k v where x: "x = (k, v)" by (cases x)
  have "map_of d k = Some v"
    using Cons.prems by (simp add: x)
  then show ?case
    using Cons by (simp add: x getitem_def)
qed

lemma collect_getitem_own_keys:
  "distinct (map fst d) \<Longrightarrow> collect (getitem d) (map fst d) = Inr (map snd d)"
  by (rule collect_getitem_present) simp_all

lemma mask_keypoints_returns:
  "3 \<le> n_columns a \<Longrightarrow> \<exists>m. mask_keypoints pc a = Inr m"
  by (cases pc) (simp_all add: mask_keypoints_def score_below_def)

lemma mask_predictions_returns:
  "\<forall>a\<in>set (map snd pred). 3 \<le> n_columns a \<Longrightarrow> \<exists>m. mask_predictions pc pred = Inr m"
proof (induction pred)
  case Nil
  then show ?case by (simp add: mask_predictions_def)
next
  case (Cons x pred)
  obtain path a where x: "x = (path, a)" by (cases x)
  from Cons.prems obtain m where m: "mask_keypoints pc a = Inr m"
    using mask_keypoints_returns [of a pc] by (auto simp: x)
  from Cons obtain ms where "mask_predictions pc pred = Inr ms"
    by auto
  then show ?case
    by (simp add: x mask_predictions_Cons m)
qed

lemma compute_oks_returns:
  assumes "returning ev" and "\<forall>a\<in>set (map snd pred). 3 \<le> n_columns a"
  shows "\<exists>oks. compute_oks ev pred ground_truth s m k pc = Inr oks"
proof -
  obtain ms where ms: "mask_predictions pc pred = Inr ms"
    using mask_predictions_returns [OF assms(2)] by blast
  have "ev (build_assemblies ms) (build_assemblies ground_truth) s m k \<noteq> None"
    using assms(1) by (simp add: returning_def)
  then obtain r where "ev (build_assemblies ms) (build_assemblies ground_truth) s m k = Some r"
    by (cases "ev (build_assemblies ms) (build_assemblies ground_truth) s m k") simp_all
  then show ?thesis
    by (simp add: compute_oks_def ms call_evaluator_def)
qed

lemma get_scores_returns:
  assumes "length poses = length ground_truth"
    and "rmse_inputs poses ground_truth up ug = Inr (p, g)" and "length p = length g"
    and "returning ev" and "\<forall>a\<in>set (map snd poses). 3 \<le> n_columns a"
  shows "\<exists>r oks oksp. compute_rmse p g pcutoff = Inr r
    \<and> compute_oks ev poses ground_truth (1 / 10) 0 None None = Inr oks
    \<and> compute_oks ev poses ground_truth (1 / 10) 0 None (Some pcutoff) = Inr oksp
    \<and> get_scores ev poses ground_truth up ug pcutoff = Inr (score_dictionary r oks oksp)"
proof -
  obtain r where r: "compute_rmse p g pcutoff = Inr r"
    using assms(3) by (simp add: compute_rmse_def Let_def)
  obtain oks where oks: "compute_oks ev poses ground_truth (1 / 10) 0 None None = Inr oks"
    using compute_oks_returns [OF assms(4,5)] by blast
  obtain oksp where
      oksp: "compute_oks ev poses ground_truth (1 / 10) 0 None (Some pcutoff) = Inr oksp"
    using compute_oks_returns [OF assms(4,5)] by blast
  have "get_scores ev poses ground_truth up ug pcutoff = Inr (score_dictionary r oks oksp)"
    using assms(1) by (cases r) (simp add: get_scores_def assms(2) r oks oksp score_dictionary_def)
  then show ?thesis
    using r oks oksp by blast
qed

lemma get_scores_rows_differ:
  assumes "length poses = length ground_truth"
    and "rmse_inputs poses ground_truth up ug = Inr (p, g)" and "length p \<noteq> length g"
  shows "get_scores ev poses ground_truth up ug pcutoff = Inl (ValueError NumElementsMismatch)"
  using assms by (simp add: get_scores_def compute_rmse_def)

lemma length_keypoint_pairs:
  "length (keypoint_pairs a) = n_individuals a * n_keypoints a"
  by (simp add: keypoint_pairs_def length_concat comp_def sum_list_triv)

lemma length_stacked_pairs:
  "\<forall>b\<in>set arrays. shape_of b = (mi, mk, mc) \<Longrightarrow>
   length (concat (map keypoint_pairs arrays)) = length arrays * mi * mk"
  by (induction arrays) (auto simp: length_keypoint_pairs shape_of_def algebra_simps)

lemma length_regroup: "even (length ts) \<Longrightarrow> 2 * length (regroup ts) = 3 * length ts"
  by (induction ts rule: regroup.induct) simp_all

lemma rmse_inputs_columns:
  assumes "poses \<noteq> []" and "distinct (map fst poses)"
    and "collect (getitem ground_truth) (map fst poses) = Inr garrays"
    and "\<forall>b\<in>set (map snd poses). shape_of b = (ni, nk, nc)" and "3 \<le> nc"
    and "\<forall>b\<in>set garrays. shape_of b = (mi, mk, mc)"
  shows "mc = 2 \<Longrightarrow> rmse_inputs poses ground_truth None ug
           = Inr (concat (map keypoint_triples (map snd poses)),
                  concat (map keypoint_pairs garrays))"
    and "mc = 3 \<Longrightarrow> even (length garrays * mi * mk * 3) \<Longrightarrow>
         rmse_inputs poses ground_truth None ug
           = Inr (concat (map keypoint_triples (map snd poses)),
                  regroup (concat (map keypoint_triples garrays)))"
proof -
  have pc: "collect (getitem poses) (map fst poses) = Inr (map snd poses)"
    using collect_getitem_own_keys [OF assms(2)] .
  have pne: "map snd poses \<noteq> []" and gne: "garrays \<noteq> []"
    using assms(1) length_collect [OF assms(3)] by auto
  have p: "pred_rows poses (map fst poses)
      = Inr (concat (map keypoint_triples (map snd poses)))"
    using pred_rows_three_columns [OF pc pne assms(4,5)] .
  show "rmse_inputs poses ground_truth None ug
           = Inr (concat (map keypoint_triples (map snd poses)),
                  concat (map keypoint_pairs garrays))" if "mc = 2"
  proof -
    have "\<forall>b\<in>set garrays. shape_of b = (mi, mk, 2)"
      using assms(6) that by simp
    from gt_rows_two_columns [OF assms(3) gne this] show ?thesis
      by (simp add: rmse_inputs_def p)
  qed
  show "rmse_inputs poses ground_truth None ug
           = Inr (concat (map keypoint_triples (map snd poses)),
                  regroup (concat (map keypoint_triples garrays)))"
    if "mc = 3" and "even (length garrays * mi * mk * 3)"
  proof -
    have ev: "even (length (concat (map keypoint_triples garrays)))"
      using that(2) length_stacked_triples [OF assms(6)] by simp
    have sh: "\<forall>b\<in>set garrays. shape_of b = (mi, mk, 3)"
      using assms(6) that(1) by simp
    from gt_rows_three_columns [OF assms(3) gne sh ev] show ?thesis
      by (simp add: rmse_inputs_def p)
  qed
qed

lemma returning_constant_evaluator: "returning constant_evaluator"
  by (simp add: returning_def constant_evaluator_def)

lemma columns_of_shape:
  "\<forall>b\<in>set arrays. shape_of b = (ni, nk, nc) \<Longrightarrow> 3 \<le> nc \<Longrightarrow>
     \<forall>b\<in>set arrays. 3 \<le> n_columns b"
  by (simp add: shape_of_def)

lemma get_scores_two_columns:
  assumes "length poses = length ground_truth" and "poses \<noteq> []"
    and "distinct (map fst poses)"
    and "collect (getitem ground_truth) (map fst poses) = Inr garrays"
    and "\<forall>b\<in>set (map snd poses). shape_of b = (ni, nk, nc)" and "3 \<le> nc"
    and "\<forall>b\<in>set garrays. shape_of b = (mi, mk, 2)"
    and "returning ev"
  shows "ni * nk = mi * mk \<Longrightarrow>
      \<exists>r oks oksp.
         compute_rmse (concat (map keypoint_triples (map snd poses)))
           (concat (map keypoint_pairs garrays)) pcutoff = Inr r
       \<and> compute_oks ev poses ground_truth (1 / 10) 0 None None = Inr oks
       \<and> compute_oks ev poses ground_truth (1 / 10) 0 None (Some pcutoff) = Inr oksp
       \<and> get_scores ev poses ground_truth None ug pcutoff = Inr (score_dictionary r oks oksp)"
    and "ni * nk \<noteq> mi * mk \<Longrightarrow>
      get_scores ev poses ground_truth None ug pcutoff = Inl (ValueError NumElementsMismatch)"
proof -
  let ?p = "concat (map keypoint_triples (map snd poses))"
  let ?g = "concat (map keypoint_pairs garrays)"
  have inputs: "rmse_inputs poses ground_truth None ug = Inr (?p, ?g)"
    using rmse_inputs_columns(1) [OF assms(2-7)] by simp
  have n: "length garrays = length poses" and pos: "0 < length poses"
    using length_collect [OF assms(4)] assms(2) by simp_all
  have lp: "length ?p = length poses * (ni * nk)"
    using length_stacked_triples [OF assms(5)] by (simp add: mult.assoc)
  have lg: "length ?g = length poses * (mi * mk)"
    using length_stacked_pairs [OF assms(7)] by (simp add: n mult.assoc)
  have cols: "\<forall>a\<in>set (map snd poses). 3 \<le> n_columns a"
    using columns_of_shape [OF assms(5,6)] .
  show "\<exists>r oks oksp.
         compute_rmse ?p ?g pcutoff = Inr r
       \<and> compute_oks ev poses ground_truth (1 / 10) 0 None None = Inr oks
       \<and> compute_oks ev poses ground_truth (1 / 10) 0 None (Some pcutoff) = Inr oksp
       \<and> get_scores ev poses ground_truth None ug pcutoff = Inr (score_dictionary r oks oksp)"
    if "ni * nk = mi * mk"
  proof -
    have "length ?p = length ?g"
      using that by (simp only: lp lg)
    from get_scores_returns [OF assms(1) inputs this assms(8) cols] show ?thesis .
  qed
  show "get_scores ev poses ground_truth None ug pcutoff = Inl (ValueError NumElementsMismatch)"
    if "ni * nk \<noteq> mi * mk"
  proof -
    have "length ?p \<noteq> length ?g"
      using that pos by (simp only: lp lg) simp
    from get_scores_rows_differ [OF assms(1) inputs this] show ?thesis .
  qed
qed

lemma get_scores_three_columns:
  assumes "length poses = length ground_truth" and "poses \<noteq> []"
    and "distinct (map fst poses)"
    and "collect (getitem ground_truth) (map fst poses) = Inr garrays"
    and "\<forall>b\<in>set (map snd poses). shape_of b = (ni, nk, nc)" and "3 \<le> nc"
    and "\<forall>b\<in>set garrays. shape_of b = (mi, mk, 3)"
    and "returning ev"
    and "even (length garrays * mi * mk * 3)"
  shows "2 * (ni * nk) = 3 * (mi * mk) \<Longrightarrow>
      \<exists>r oks oksp.
         compute_rmse (concat (map keypoint_triples (map snd poses)))
           (regroup (concat (map keypoint_triples garrays))) pcutoff = Inr r
       \<and> compute_oks ev poses ground_truth (1 / 10) 0 None None = Inr oks
       \<and> compute_oks ev poses ground_truth (1 / 10) 0 None (Some pcutoff) = Inr oksp
       \<and> get_scores ev poses ground_truth None ug pcutoff = Inr (score_dictionary r oks oksp)"
    and "2 * (ni * nk) \<noteq> 3 * (mi * mk) \<Longrightarrow>
      get_scores ev poses ground_truth None ug pcutoff = Inl (ValueError NumElementsMismatch)"
proof -
  let ?p = "concat (map keypoint_triples (map snd poses))"
  let ?t = "concat (map keypoint_triples garrays)"
  have inputs: "rmse_inputs poses ground_truth None ug = Inr (?p, regroup ?t)"
    using rmse_inputs_columns(2) [OF assms(2-7) _ assms(9)] by simp
  have n: "length garrays = length poses" and pos: "0 < length poses"
    using length_collect [OF assms(4)] assms(2) by simp_all
  have lp: "length ?p = length poses * (ni * nk)"
    using length_stacked_triples [OF assms(5)] by (simp add: mult.assoc)
  have lt: "length ?t = length poses * (mi * mk)"
    using length_stacked_triples [OF assms(7)] by (simp add: n mult.assoc)
  have "even (length ?t)"
    using assms(9) by (simp add: lt n mult.assoc)
  then have lg: "2 * length (regroup ?t) = 3 * (length poses * (mi * mk))"
    using length_regroup [of ?t] by (simp only: lt)
  have cols: "\<forall>a\<in>set (map snd poses). 3 \<le> n_columns a"
    using columns_of_shape [OF assms(5,6)] .
  show "\<exists>r oks oksp.
         compute_rmse ?p (regroup ?t) pcutoff = Inr r
       \<and> compute_oks ev poses ground_truth (1 / 10) 0 None None = Inr oks
       \<and> compute_oks ev poses ground_truth (1 / 10) 0 None (Some pcutoff) = Inr oksp
       \<and> get_scores ev poses ground_truth None ug pcutoff = Inr (score_dictionary r oks oksp)"
    if "2 * (ni * nk) = 3 * (mi * mk)"
  proof -
    have "2 * (length poses * (ni * nk)) = length poses * (2 * (ni * nk))"
      by simp
    also have "\<dots> = length poses * (3 * (mi * mk))"
      by (simp only: that)
    also have "\<dots> = 3 * (length poses * (mi * mk))"
      by simp
    finally have "2 * length ?p = 2 * length (regroup ?t)"
      by (simp only: lp lg)
    then have "length ?p = length (regroup ?t)"
      by simp
    from get_scores_returns [OF assms(1) inputs this assms(8) cols] show ?thesis .
  qed
  show "get_scores ev poses ground_truth None ug pcutoff = Inl (ValueError NumElementsMismatch)"
    if "2 * (ni * nk) \<noteq> 3 * (mi * mk)"
  proof -
    have "length ?p \<noteq> length (regroup ?t)"
    proof
      assume e: "length ?p = length (regroup ?t)"
      have "2 * length ?p = 2 * length (regroup ?t)"
        by (simp only: e)
      then have "2 * (length poses * (ni * nk)) = 3 * (length poses * (mi * mk))"
        by (simp only: lp lg)
      then have "length poses * (2 * (ni * nk)) = length poses * (3 * (mi * mk))"
        by (simp only: mult.left_commute)
      then show False
        using that pos by simp
    qed
    from get_scores_rows_differ [OF assms(1) inputs this] show ?thesis .
  qed
qed

lemma compute_oks_constant_evaluator:
  "\<forall>a\<in>set (map snd pred). 3 \<le> n_columns a \<Longrightarrow>
     compute_oks constant_evaluator pred ground_truth s m k pc = Inr (Fin 1, Fin 1)"
  using mask_predictions_returns [of pred pc]
  by (auto simp: compute_oks_def call_evaluator_def constant_evaluator_def)

lemma example_rmse:
  "compute_rmse (concat (map keypoint_triples (map snd [(''img'', example_prediction)])))
     (concat (map keypoint_pairs [example_ground_truth])) (Fin (1 / 2)) = Inr (Fin 0, Fin 0)"
  by (simp add: compute_rmse_def Let_def keypoint_triples_def keypoint_pairs_def
      example_prediction_def example_ground_truth_def np_array_def upt_2
      np_nanmean_def np_sum_def mask_select_def)

lemma regrouped_rmse:
  "compute_rmse (concat (map keypoint_triples (map snd [(''img'', three_keypoints)])))
     (regroup (concat (map keypoint_triples [visible_ground_truth]))) (Fin (1 / 2))
     = Inr (Fin 0, Fin 0)"
  by (simp add: compute_rmse_def Let_def keypoint_triples_def
      three_keypoints_def visible_ground_truth_def np_array_def upt_2 upt_3
      np_nanmean_def np_sum_def mask_select_def)

text \<open>
  Claim C3, as amended. \<^verbatim>\<open>get_scores\<close> raises the \<^verbatim>\<open>ValueError\<close> of its image-count
  guard, and returns nothing, exactly when the predictions and the ground truth differ
  in their number of images. With equal numbers, on non-empty mappings where the ground
  truth has every image of the predictions, the prediction arrays have one shape with
  at least three columns, the ground truth arrays have one shape with two columns, and
  the evaluator returns: when both have the same number of keypoints per image,
  \<^verbatim>\<open>get_scores\<close> returns the full score dictionary, the two RMSE values of
  \<^verbatim>\<open>compute_rmse\<close> on the stacked keypoints and a hundred times the results of the two
  calls of \<^verbatim>\<open>compute_oks\<close>; otherwise it raises the \<^verbatim>\<open>ValueError\<close> of the row-count
  guard of \<^verbatim>\<open>compute_rmse\<close>.
\<close>

theorem get_scores_guard_and_scores:
  "((\<exists>e. get_scores ev poses ground_truth up ug pcutoff = Inl e \<and> from_guard e)
      = (length poses \<noteq> length ground_truth))
   \<and> ((get_scores ev poses ground_truth up ug pcutoff
         = Inl (ValueError (ImageCountMismatch (length poses) (length ground_truth))))
      = (length poses \<noteq> length ground_truth))
   \<and> (length poses = length ground_truth \<and> poses \<noteq> [] \<and> distinct (map fst poses)
        \<and> collect (getitem ground_truth) (map fst poses) = Inr garrays
        \<and> (\<forall>b\<in>set (map snd poses). shape_of b = (ni, nk, nc)) \<and> 3 \<le> nc
        \<and> (\<forall>b\<in>set garrays. shape_of b = (mi, mk, 2))
        \<and> returning ev \<longrightarrow>
        (ni * nk = mi * mk \<longrightarrow>
          (\<exists>r oks oksp.
             compute_rmse (concat (map keypoint_triples (map snd poses)))
               (concat (map keypoint_pairs garrays)) pcutoff = Inr r
           \<and> compute_oks ev poses ground_truth (1 / 10) 0 None None = Inr oks
           \<and> compute_oks ev poses ground_truth (1 / 10) 0 None (Some pcutoff) = Inr oksp
           \<and> get_scores ev poses ground_truth None ug pcutoff
               = Inr (score_dictionary r oks oksp)))
        \<and> (ni * nk \<noteq> mi * mk \<longrightarrow>
             get_scores ev poses ground_truth None ug pcutoff
               = Inl (ValueError NumElementsMismatch)))"
proof (intro conjI impI)
  show "(\<exists>e. get_scores ev poses ground_truth up ug pcutoff = Inl e \<and> from_guard e)
      = (length poses \<noteq> length ground_truth)"
  proof (cases "length poses = length ground_truth")
    case False
    then show ?thesis by (simp add: get_scores_def)
  next
    case True
    have "\<not> from_guard e" if "get_scores ev poses ground_truth up ug pcutoff = Inl e" for e
      using that True
      by (auto simp: get_scores_def bind_Inl
          dest: rmse_inputs_not_guard compute_rmse_not_guard compute_oks_not_guard)
    then show ?thesis using True by auto
  qed
  show "(get_scores ev poses ground_truth up ug pcutoff
         = Inl (ValueError (ImageCountMismatch (length poses) (length ground_truth))))
      = (length poses \<noteq> length ground_truth)"
  proof (cases "length poses = length ground_truth")
    case False
    then show ?thesis by (simp add: get_scores_def)
  next
    case True
    have "\<not> from_guard e" if "get_scores ev poses ground_truth up ug pcutoff = Inl e" for e
      using that True
      by (auto simp: get_scores_def bind_Inl
          dest: rmse_inputs_not_guard compute_rmse_not_guard compute_oks_not_guard)
    moreover have
      "from_guard (ValueError (ImageCountMismatch (length poses) (length ground_truth)))"
      by simp
    ultimately show ?thesis using True by auto
  qed
next
  assume h: "length poses = length ground_truth \<and> poses \<noteq> [] \<and> distinct (map fst poses)
        \<and> collect (getitem ground_truth) (map fst poses) = Inr garrays
        \<and> (\<forall>b\<in>set (map snd poses). shape_of b = (ni, nk, nc)) \<and> 3 \<le> nc
        \<and> (\<forall>b\<in>set garrays. shape_of b = (mi, mk, 2))
        \<and> returning ev"
    and e: "ni * nk = mi * mk"
  from h have h1: "length poses = length ground_truth" and h2: "poses \<noteq> []"
    and h3: "distinct (map fst poses)"
    and h4: "collect (getitem ground_truth) (map fst poses) = Inr garrays"
    and h5: "\<forall>b\<in>set (map snd poses). shape_of b = (ni, nk, nc)" and h6: "3 \<le> nc"
    and h7: "\<forall>b\<in>set garrays. shape_of b = (mi, mk, 2)" and h8: "returning ev"
    by simp_all
  from get_scores_two_columns(1) [OF h1 h2 h3 h4 h5 h6 h7 h8 e]
  show "\<exists>r oks oksp.
             compute_rmse (concat (map keypoint_triples (map snd poses)))
               (concat (map keypoint_pairs garrays)) pcutoff = Inr r
           \<and> compute_oks ev poses ground_truth (1 / 10) 0 None None = Inr oks
           \<and> compute_oks ev poses ground_truth (1 / 10) 0 None (Some pcutoff) = Inr oksp
           \<and> get_scores ev poses ground_truth None ug pcutoff
               = Inr (score_dictionary r oks oksp)" .
next
  assume h: "length poses = length ground_truth \<and> poses \<noteq> [] \<and> distinct (map fst poses)
        \<and> collect (getitem ground_truth) (map fst poses) = Inr garrays
        \<and> (\<forall>b\<in>set (map snd poses). shape_of b = (ni, nk, nc)) \<and> 3 \<le> nc
        \<and> (\<forall>b\<in>set garrays. shape_of b = (mi, mk, 2))
        \<and> returning ev"
    and e: "ni * nk \<noteq> mi * mk"
  from h have h1: "length poses = length ground_truth" and h2: "poses \<noteq> []"
    and h3: "distinct (map fst poses)"
    and h4: "collect (getitem ground_truth) (map fst poses) = Inr garrays"
    and h5: "\<forall>b\<in>set (map snd poses). shape_of b = (ni, nk, nc)" and h6: "3 \<le> nc"
    and h7: "\<forall>b\<in>set garrays. shape_of b = (mi, mk, 2)" and h8: "returning ev"
    by simp_all
  from get_scores_two_columns(2) [OF h1 h2 h3 h4 h5 h6 h7 h8 e]
  show "get_scores ev poses ground_truth None ug pcutoff
               = Inl (ValueError NumElementsMismatch)" .
qed

theorem get_scores_guard_and_scores_witness:
  "get_scores constant_evaluator [(''img'', example_prediction)] [] None None (Fin (1 / 2))
     = Inl (ValueError (ImageCountMismatch 1 0))
   \<and> get_scores constant_evaluator [(''img'', example_prediction)]
       [(''img'', example_ground_truth)] None None (Fin (1 / 2))
     = Inr \<lparr>rmse = Fin 0, rmse_pcutoff = Fin 0, mAP = Fin 100, mAR = Fin 100,
            mAP_pcutoff = Fin 100, mAR_pcutoff = Fin 100\<rparr>"
proof
  show "get_scores constant_evaluator [(''img'', example_prediction)] [] None None (Fin (1 / 2))
     = Inl (ValueError (ImageCountMismatch 1 0))"
    using get_scores_guard_and_scores [where ev = constant_evaluator
        and poses = "[(''img'', example_prediction)]" and ground_truth = "[]"
        and up = None and ug = None and pcutoff = "Fin (1 / 2)"]
    by simp
  let ?p = "[(''img'', example_prediction)]"
  let ?g = "[(''img'', example_ground_truth)]"
  have h: "length ?p = length ?g \<and> ?p \<noteq> [] \<and> distinct (map fst ?p)
        \<and> collect (getitem ?g) (map fst ?p) = Inr [example_ground_truth]
        \<and> (\<forall>b\<in>set (map snd ?p). shape_of b = (2, 2, 3)) \<and> (3 :: nat) \<le> 3
        \<and> (\<forall>b\<in>set [example_ground_truth]. shape_of b = (2, 2, 2))
        \<and> returning constant_evaluator"
    by (simp add: getitem_def shape_of_def example_prediction_def example_ground_truth_def
        np_array_def returning_constant_evaluator)
  have e: "(2 :: nat) * 2 = 2 * 2"
    by simp
  have cols: "\<forall>a\<in>set (map snd ?p). 3 \<le> n_columns a"
    by (simp add: example_prediction_def np_array_def)
  from get_scores_guard_and_scores [where ev = constant_evaluator and poses = ?p
      and ground_truth = ?g and ug = None and pcutoff = "Fin (1 / 2)"
      and garrays = "[example_ground_truth]" and ni = 2 and nk = 2 and nc = 3
      and mi = 2 and mk = 2, THEN conjunct2, THEN conjunct2, THEN mp, OF h,
      THEN conjunct1, THEN mp, OF e]
  obtain r oks oksp where
      "compute_rmse (concat (map keypoint_triples (map snd ?p)))
         (concat (map keypoint_pairs [example_ground_truth])) (Fin (1 / 2)) = Inr r"
      "compute_oks constant_evaluator ?p ?g (1 / 10) 0 None None = Inr oks"
      "compute_oks constant_evaluator ?p ?g (1 / 10) 0 None (Some (Fin (1 / 2))) = Inr oksp"
      "get_scores constant_evaluator ?p ?g None None (Fin (1 / 2))
         = Inr (score_dictionary r oks oksp)"
    by (elim exE conjE) (rule that, assumption+)
  then show "get_scores constant_evaluator ?p ?g None None (Fin (1 / 2))
     = Inr \<lparr>rmse = Fin 0, rmse_pcutoff = Fin 0, mAP = Fin 100, mAR = Fin 100,
            mAP_pcutoff = Fin 100, mAR_pcutoff = Fin 100\<rparr>"
    by (simp only: example_rmse compute_oks_constant_evaluator [OF cols])
       (auto simp: score_dictionary_def)
qed

text \<open>
  With equal numbers of images the call can still raise a \<^verbatim>\<open>ValueError\<close>: on two empty
  mappings \<^verbatim>\<open>np.stack\<close> has no array to stack.
\<close>

theorem get_scores_empty:
  "length ([] :: ndarray3 dict) = length ([] :: ndarray3 dict)
   \<and> get_scores constant_evaluator [] [] None None (Fin (- 1))
       = Inl (ValueError StackNeedsOneArray)"
  by (simp add: get_scores_def rmse_inputs_def pred_rows_def build_keypoint_array_def
      np_stack_def)

text \<open>
  Claim C9, as amended. In \<^verbatim>\<open>get_scores\<close>, on non-empty mappings with as many images,
  where the ground truth has every image of the predictions, the prediction arrays have
  one shape with at least three columns, the ground truth arrays have one shape, and
  the evaluator returns. When every ground truth array has two columns, the rows handed
  to \<^verbatim>\<open>compute_rmse\<close> are the keypoints of the predictions and the keypoints of the
  ground truth, in the same order, and they are compared when both have as many
  keypoints per image. When every ground truth array has three columns and the number
  of its entries is even, the reshape raises nothing and the rows are the regrouped
  pairs, which mix coordinates and third columns. These pairs are compared with the
  predictions, and \<^verbatim>\<open>get_scores\<close> returns the score dictionary with these RMSE values,
  exactly when twice the number of predicted keypoints per image is three times the
  number of ground truth keypoints per image; otherwise the row-count guard of
  \<^verbatim>\<open>compute_rmse\<close> raises \<^verbatim>\<open>ValueError\<close>, as it does whenever predictions and
  ground truth have the same number of individuals and keypoints and that number is
  not zero.
\<close>

theorem get_scores_pairs_rows:
  assumes "length poses = length ground_truth" and "poses \<noteq> []"
    and "distinct (map fst poses)"
    and "collect (getitem ground_truth) (map fst poses) = Inr garrays"
    and "\<forall>b\<in>set (map snd poses). shape_of b = (ni, nk, nc)" and "3 \<le> nc"
    and "\<forall>b\<in>set garrays. shape_of b = (mi, mk, mc)"
    and "returning ev"
  shows "(mc = 2 \<longrightarrow>
           rmse_inputs poses ground_truth None ug
             = Inr (concat (map keypoint_triples (map snd poses)),
                    concat (map keypoint_pairs garrays))
         \<and> (ni * nk = mi * mk \<longrightarrow>
              (\<exists>r oks oksp.
                 compute_rmse (concat (map keypoint_triples (map snd poses)))
                   (concat (map keypoint_pairs garrays)) pcutoff = Inr r
               \<and> compute_oks ev poses ground_truth (1 / 10) 0 None None = Inr oks
               \<and> compute_oks ev poses ground_truth (1 / 10) 0 None (Some pcutoff) = Inr oksp
               \<and> get_scores ev poses ground_truth None ug pcutoff
                   = Inr (score_dictionary r oks oksp)))
         \<and> (ni * nk \<noteq> mi * mk \<longrightarrow>
              get_scores ev poses ground_truth None ug pcutoff
                = Inl (ValueError NumElementsMismatch)))
    \<and> (mc = 3 \<and> even (length garrays * mi * mk * 3) \<longrightarrow>
           gt_rows ground_truth (map fst poses)
             = Inr (regroup (concat (map keypoint_triples garrays)))
         \<and> rmse_inputs poses ground_truth None ug
             = Inr (concat (map keypoint_triples (map snd poses)),
                    regroup (concat (map keypoint_triples garrays)))
         \<and> (2 * (ni * nk) = 3 * (mi * mk) \<longrightarrow>
              (\<exists>r oks oksp.
                 compute_rmse (concat (map keypoint_triples (map snd poses)))
                   (regroup (concat (map keypoint_triples garrays))) pcutoff = Inr r
               \<and> compute_oks ev poses ground_truth (1 / 10) 0 None None = Inr oks
               \<and> compute_oks ev poses ground_truth (1 / 10) 0 None (Some pcutoff) = Inr oksp
               \<and> get_scores ev poses ground_truth None ug pcutoff
                   = Inr (score_dictionary r oks oksp)))
         \<and> (2 * (ni * nk) \<noteq> 3 * (mi * mk) \<longrightarrow>
              get_scores ev poses ground_truth None ug pcutoff
                = Inl (ValueError NumElementsMismatch))
         \<and> (mi = ni \<and> mk = nk \<and> 0 < ni * nk \<longrightarrow>
              get_scores ev poses ground_truth None ug pcutoff
                = Inl (ValueError NumElementsMismatch)))"
proof (intro conjI impI)
  assume mc: "mc = 2"
  then have sh: "\<forall>b\<in>set garrays. shape_of b = (mi, mk, 2)"
    using assms(7) by simp
  show "rmse_inputs poses ground_truth None ug
        = Inr (concat (map keypoint_triples (map snd poses)),
               concat (map keypoint_pairs garrays))"
    using rmse_inputs_columns(1) [OF assms(2-7) mc] .
  show "\<exists>r oks oksp.
           compute_rmse (concat (map keypoint_triples (map snd poses)))
             (concat (map keypoint_pairs garrays)) pcutoff = Inr r
         \<and> compute_oks ev poses ground_truth (1 / 10) 0 None None = Inr oks
         \<and> compute_oks ev poses ground_truth (1 / 10) 0 None (Some pcutoff) = Inr oksp
         \<and> get_scores ev poses ground_truth None ug pcutoff
             = Inr (score_dictionary r oks oksp)"
    if "ni * nk = mi * mk"
    using get_scores_two_columns(1) [OF assms(1-6) sh assms(8) that] .
  show "get_scores ev poses ground_truth None ug pcutoff
          = Inl (ValueError NumElementsMismatch)"
    if "ni * nk \<noteq> mi * mk"
    using get_scores_two_columns(2) [OF assms(1-6) sh assms(8) that] .
next
  assume h: "mc = 3 \<and> even (length garrays * mi * mk * 3)"
  then have mc: "mc = 3" and ev: "even (length garrays * mi * mk * 3)"
    by simp_all
  have sh: "\<forall>b\<in>set garrays. shape_of b = (mi, mk, 3)"
    using assms(7) mc by simp
  have gne: "garrays \<noteq> []"
    using assms(2) length_collect [OF assms(4)] by auto
  have evl: "even (length (concat (map keypoint_triples garrays)))"
    using ev length_stacked_triples [OF sh] by simp
  show "gt_rows ground_truth (map fst poses)
          = Inr (regroup (concat (map keypoint_triples garrays)))"
    using gt_rows_three_columns [OF assms(4) gne sh evl] .
  show "rmse_inputs poses ground_truth None ug
        = Inr (concat (map keypoint_triples (map snd poses)),
               regroup (concat (map keypoint_triples garrays)))"
    using rmse_inputs_columns(2) [OF assms(2-7) mc ev] .
  show "\<exists>r oks oksp.
           compute_rmse (concat (map keypoint_triples (map snd poses)))
             (regroup (concat (map keypoint_triples garrays))) pcutoff = Inr r
         \<and> compute_oks ev poses ground_truth (1 / 10) 0 None None = Inr oks
         \<and> compute_oks ev poses ground_truth (1 / 10) 0 None (Some pcutoff) = Inr oksp
         \<and> get_scores ev poses ground_truth None ug pcutoff
             = Inr (score_dictionary r oks oksp)"
    if "2 * (ni * nk) = 3 * (mi * mk)"
    using get_scores_three_columns(1) [OF assms(1-6) sh assms(8) ev that] .
  show differ: "get_scores ev poses ground_truth None ug pcutoff
          = Inl (ValueError NumElementsMismatch)"
    if "2 * (ni * nk) \<noteq> 3 * (mi * mk)"
    using get_scores_three_columns(2) [OF assms(1-6) sh assms(8) ev that] .
  show "get_scores ev poses ground_truth None ug pcutoff
          = Inl (ValueError NumElementsMismatch)"
    if "mi = ni \<and> mk = nk \<and> 0 < ni * nk"
  proof -
    have "2 * (ni * nk) \<noteq> 3 * (mi * mk)"
      using that by auto
    then show ?thesis
      by (rule differ)
  qed
qed

theorem get_scores_pairs_rows_witness:
  "rmse_inputs [(''img'', three_keypoints)] [(''img'', visible_ground_truth)] None None
     = Inr ([(Fin 0, Fin 0, Fin (9 / 10)), (Fin 1, Fin 1, Fin (9 / 10)),
             (Fin 1, Fin 1, Fin (9 / 10))],
            [(Fin 0, Fin 0), (Fin 1, Fin 1), (Fin 1, Fin 1)])
   \<and> get_scores constant_evaluator [(''img'', three_keypoints)]
       [(''img'', visible_ground_truth)] None None (Fin (1 / 2))
     = Inr \<lparr>rmse = Fin 0, rmse_pcutoff = Fin 0, mAP = Fin 100, mAR = Fin 100,
            mAP_pcutoff = Fin 100, mAR_pcutoff = Fin 100\<rparr>"
proof -
  let ?p = "[(''img'', three_keypoints)]"
  let ?g = "[(''img'', visible_ground_truth)]"
  have h: "length ?p = length ?g" "?p \<noteq> []" "distinct (map fst ?p)"
      "collect (getitem ?g) (map fst ?p) = Inr [visible_ground_truth]"
      "\<forall>b\<in>set (map snd ?p). shape_of b = (1, 3, 3)" "(3 :: nat) \<le> 3"
      "\<forall>b\<in>set [visible_ground_truth]. shape_of b = (1, 2, 3)"
      "returning constant_evaluator"
    by (simp_all add: getitem_def shape_of_def three_keypoints_def visible_ground_truth_def
        np_array_def returning_constant_evaluator)
  have c: "(3 :: nat) = 3 \<and> even (length [visible_ground_truth] * 1 * 2 * 3)"
    by simp
  have e: "(2 :: nat) * (1 * 3) = 3 * (1 * 2)"
    by simp
  have cols: "\<forall>a\<in>set (map snd ?p). 3 \<le> n_columns a"
    by (simp add: three_keypoints_def np_array_def)
  note t = get_scores_pairs_rows [OF h, where ug = None and pcutoff = "Fin (1 / 2)",
      THEN conjunct2, THEN mp, OF c]
  have rows: "rmse_inputs ?p ?g None None
     = Inr ([(Fin 0, Fin 0, Fin (9 / 10)), (Fin 1, Fin 1, Fin (9 / 10)),
             (Fin 1, Fin 1, Fin (9 / 10))],
            [(Fin 0, Fin 0), (Fin 1, Fin 1), (Fin 1, Fin 1)])"
    using t [THEN conjunct2, THEN conjunct1]
    by (simp add: keypoint_triples_def three_keypoints_def visible_ground_truth_def
        np_array_def upt_2 upt_3)
  from t [THEN conjunct2, THEN conjunct2, THEN conjunct1, THEN mp, OF e]
  obtain r oks oksp where
      "compute_rmse (concat (map keypoint_triples (map snd ?p)))
         (regroup (concat (map keypoint_triples [visible_ground_truth]))) (Fin (1 / 2)) = Inr r"
      "compute_oks constant_evaluator ?p ?g (1 / 10) 0 None None = Inr oks"
      "compute_oks constant_evaluator ?p ?g (1 / 10) 0 None (Some (Fin (1 / 2))) = Inr oksp"
      "get_scores constant_evaluator ?p ?g None None (Fin (1 / 2))
         = Inr (score_dictionary r oks oksp)"
    by (elim exE conjE) (rule that, assumption+)
  then have "get_scores constant_evaluator ?p ?g None None (Fin (1 / 2))
     = Inr \<lparr>rmse = Fin 0, rmse_pcutoff = Fin 0, mAP = Fin 100, mAR = Fin 100,
            mAP_pcutoff = Fin 100, mAR_pcutoff = Fin 100\<rparr>"
    by (simp only: regrouped_rmse compute_oks_constant_evaluator [OF cols])
       (auto simp: score_dictionary_def)
  with rows show ?thesis
    by (rule conjI)
qed

text \<open>
  A ground truth with a third column and an even number of entries, and a prediction
  of the same individuals and keypoints: the reshape raises nothing and regroups, and
  no comparison follows, \<^verbatim>\<open>get_scores\<close> raises the \<^verbatim>\<open>ValueError\<close> of the row-count guard.
\<close>

theorem get_scores_same_shape_raises:
  "shape_of two_keypoints = (1, 2, 3) \<and> shape_of visible_ground_truth = (1, 2, 3)
   \<and> gt_rows [(''img'', visible_ground_truth)] [''img'']
       = Inr [(Fin 0, Fin 0), (Fin 1, Fin 1), (Fin 1, Fin 1)]
   \<and> get_scores constant_evaluator [(''img'', two_keypoints)]
       [(''img'', visible_ground_truth)] None None (Fin (1 / 2))
       = Inl (ValueError NumElementsMismatch)"
proof -
  let ?p = "[(''img'', two_keypoints)]"
  let ?g = "[(''img'', visible_ground_truth)]"
  have s: "shape_of two_keypoints = (1, 2, 3)" "shape_of visible_ground_truth = (1, 2, 3)"
    by (simp_all add: shape_of_def two_keypoints_def visible_ground_truth_def np_array_def)
  have h: "length ?p = length ?g" "?p \<noteq> []" "distinct (map fst ?p)"
      "collect (getitem ?g) (map fst ?p) = Inr [visible_ground_truth]"
      "\<forall>b\<in>set (map snd ?p). shape_of b = (1, 2, 3)" "(3 :: nat) \<le> 3"
      "\<forall>b\<in>set [visible_ground_truth]. shape_of b = (1, 2, 3)"
      "returning constant_evaluator"
      "even (length [visible_ground_truth] * 1 * 2 * 3)"
    by (simp_all add: getitem_def s returning_constant_evaluator)
  have "collect (getitem ?g) [''img''] = Inr [visible_ground_truth]"
    using h(4) by simp
  from gt_rows_three_columns [OF this _ h(7)]
  have g: "gt_rows ?g [''img''] = Inr [(Fin 0, Fin 0), (Fin 1, Fin 1), (Fin 1, Fin 1)]"
    by (simp add: keypoint_triples_def visible_ground_truth_def np_array_def upt_2)
  have "(2 :: nat) * (1 * 2) \<noteq> 3 * (1 * 2)"
    by simp
  from get_scores_three_columns(2) [OF h this]
  have "get_scores constant_evaluator ?p ?g None None (Fin (1 / 2))
       = Inl (ValueError NumElementsMismatch)" .
  with s g show ?thesis
    by (intro conjI)
qed

end
